theory Spec2Isabelle
  imports Complex_Main "HOL-Library.Sublist"
begin

section \<open>Shared conventions\<close>

text \<open>
  The repository is a Python irrigation service with two source files:
  \<^verbatim>\<open>predict.py\<close> (artifact loading, feature reconciliation, the prediction run) and
  \<^verbatim>\<open>feature_engineering.py\<close> (resampling, lag features, dataset assembly).

  Python floats are idealised as rationals. A value that pandas treats as missing
  (\<^verbatim>\<open>NaN\<close>) and a Python \<^verbatim>\<open>None\<close> are both \<open>None\<close> of an option type.
\<close>

type_synonym num = rat

section \<open>predict.py: feature reconciliation\<close>

subsection \<open>Strings\<close>

text \<open>
  \<^verbatim>\<open>str.lower()\<close> on the ASCII letters; every other character is left as it is.
\<close>

definition lower_char :: "char \<Rightarrow> char" where
  "lower_char c =
     (let n = (of_char c :: nat)
      in if 65 \<le> n \<and> n \<le> 90 then char_of (n + 32) else c)"

definition lower :: "string \<Rightarrow> string" where
  "lower s = map lower_char s"

text \<open>\<^verbatim>\<open>k in s\<close> for two strings: \<open>k\<close> occurs in \<open>s\<close> as a contiguous block.\<close>

fun contains :: "string \<Rightarrow> string \<Rightarrow> bool" where
  "contains k [] = (k = [])"
| "contains k (c # cs) = (prefix k (c # cs) \<or> contains k cs)"

subsection \<open>The keyword table\<close>

text \<open>
  \<^verbatim>\<open>_KEYWORDS\<close>, a dict literal; Python iterates it in the order it is written, so it
  is an association list here.
\<close>

definition KEYWORDS :: "(string \<times> string list) list" where
  "KEYWORDS =
     [(''soil'', [''soil'', ''moist'']),
      (''temp'', [''temp'', ''temperature'']),
      (''hum'', [''hum'', ''humid'', ''humidity''])]"

subsection \<open>The console\<close>

text \<open>
  What a run prints, as events rather than formatted text. The comment of each
  constructor gives the text of the source.
\<close>

datatype line =
    ModelFileNotFound string        \<comment> \<open>\<^verbatim>\<open>Model file not found: <path>\<close>\<close>
  | NoModelFound                    \<comment> \<open>\<^verbatim>\<open>No model found inside artifact.\<close>\<close>
  | FetchingSensorData              \<comment> \<open>\<^verbatim>\<open>Fetching latest sensor data from MongoDB...\<close>\<close>
  | UsingDevice "string option"     \<comment> \<open>\<^verbatim>\<open>Using sensor data from device: <id or N/A>\<close>\<close>
  | ShowMoisture "num option"       \<comment> \<open>\<^verbatim>\<open>  Moisture: <v>%\<close>\<close>
  | ShowTemperature "num option"    \<comment> \<open>\<^verbatim>\<open>  Temperature: <v>\<close>\<close>
  | ShowHumidity "num option"       \<comment> \<open>\<^verbatim>\<open>  Humidity: <v>%\<close>\<close>
  | ErrorFetching string            \<comment> \<open>\<^verbatim>\<open>Error fetching from database: <e>\<close>\<close>
  | EnterPrompt string              \<comment> \<open>\<^verbatim>\<open>Enter <name>: \<close>, the prompt of \<^verbatim>\<open>input\<close>\<close>
  | PleaseNumeric                   \<comment> \<open>\<^verbatim>\<open>Please enter a numeric value.\<close>\<close>
  | PredictFailed string string     \<comment> \<open>\<^verbatim>\<open>Failed to call model.predict(): <e> <e2>\<close>\<close>
  | RawOut int                      \<comment> \<open>the raw label, \<^verbatim>\<open>print(out)\<close>\<close>
  | PumpOn                          \<comment> \<open>\<^verbatim>\<open>PUMP: ON\<close>\<close>
  | PumpOff                         \<comment> \<open>\<^verbatim>\<open>PUMP: OFF\<close>\<close>
  | SavingPrediction                \<comment> \<open>\<^verbatim>\<open>Saving prediction to MongoDB...\<close>\<close>
  | PredictionSaved string          \<comment> \<open>\<^verbatim>\<open>Prediction saved with ID: <id>\<close>\<close>
  | SaveWarning string              \<comment> \<open>\<^verbatim>\<open>Warning: Failed to save prediction to database: <e>\<close>\<close>
  | Traceback string                \<comment> \<open>the interpreter's report of an uncaught exception\<close>

text \<open>
  The operator's answers still to be read are a list; an answer that \<^verbatim>\<open>float\<close>
  rejects is \<open>None\<close>. \<open>calls\<close> records every call of \<^verbatim>\<open>model.predict\<close> and
  \<open>inserted\<close> every document handed to the prediction store.
\<close>

datatype predict_arg =
    Structured "string list" "num option list"   \<comment> \<open>a one-row DataFrame: column names, values\<close>
  | Flat "num option list"                       \<comment> \<open>\<^verbatim>\<open>X.values\<close>, the same row without names\<close>

record prediction_doc =
  deviceId :: string
  waterMM :: nat
  pumpTimeSec :: nat
  predictionId :: string
  used :: bool

record io =
  stdin :: "num option list"
  stdout :: "line list"
  stderr :: "line list"
  calls :: "predict_arg list"
  inserted :: "prediction_doc list"

definition print :: "line \<Rightarrow> io \<Rightarrow> io" where
  "print l s = s\<lparr>stdout := stdout s @ [l]\<rparr>"

definition eprint :: "line \<Rightarrow> io \<Rightarrow> io" where
  "eprint l s = s\<lparr>stderr := stderr s @ [l]\<rparr>"

text \<open>
  \<^verbatim>\<open>prompt_float\<close>: \<^verbatim>\<open>while True\<close> around \<^verbatim>\<open>float(input(...))\<close>, every exception
  caught. The loop ends at the first numeric answer. When the answers run out,
  \<^verbatim>\<open>input\<close> raises at end of file, the handler catches that too, and the loop never
  ends: the result is \<open>None\<close>.
\<close>

fun prompt_loop :: "string \<Rightarrow> num option list \<Rightarrow> line list \<Rightarrow> (num \<times> num option list \<times> line list) option" where
  "prompt_loop name [] out = None"
| "prompt_loop name (Some v # rest) out = Some (v, rest, out @ [EnterPrompt name])"
| "prompt_loop name (None # rest) out = prompt_loop name rest (out @ [EnterPrompt name, PleaseNumeric])"

definition prompt_float :: "string \<Rightarrow> io \<Rightarrow> (num \<times> io) option" where
  "prompt_float name s =
     (case prompt_loop name (stdin s) (stdout s) of
        None \<Rightarrow> None
      | Some (v, rest, out) \<Rightarrow> Some (v, s\<lparr>stdin := rest, stdout := out\<rparr>))"

subsection \<open>map_inputs_to_features\<close>

text \<open>
  The inner loop \<^verbatim>\<open>for key, kws in _KEYWORDS.items()\<close> with its \<^verbatim>\<open>break\<close>: the key of
  the first entry one of whose keywords occurs in the lower-cased name.
\<close>

fun match_keywords :: "(string \<times> string list) list \<Rightarrow> string \<Rightarrow> string option" where
  "match_keywords [] fl = None"
| "match_keywords ((key, kws) # rest) fl =
     (if list_ex (\<lambda>k. contains k fl) kws then Some key else match_keywords rest fl)"

text \<open>
  The second loop, \<^verbatim>\<open>for key in ("soil","temp","hum")\<close>: the value of the first key
  that equals the lower-cased name and has a value.
\<close>

fun match_exact :: "string list \<Rightarrow> string \<Rightarrow> (string \<rightharpoonup> num) \<Rightarrow> num option" where
  "match_exact [] fl provided = None"
| "match_exact (key # rest) fl provided =
     (if key = fl \<and> provided key \<noteq> None then provided key
      else match_exact rest fl provided)"

text \<open>One pass of the outer loop: the value given to \<open>feat\<close>, and the console after it.\<close>

definition feature_value :: "string \<Rightarrow> (string \<rightharpoonup> num) \<Rightarrow> io \<Rightarrow> (num \<times> io) option" where
  "feature_value feat provided s =
     (let fl = lower feat in
      case match_keywords KEYWORDS fl of
        Some key \<Rightarrow>
          (case provided key of
             Some val \<Rightarrow> Some (val, s)
           | None \<Rightarrow> prompt_float key s)
      | None \<Rightarrow>
          (case match_exact [''soil'', ''temp'', ''hum''] fl provided of
             Some val \<Rightarrow> Some (val, s)
           | None \<Rightarrow> prompt_float feat s))"

fun map_inputs_loop :: "string list \<Rightarrow> (string \<rightharpoonup> num) \<Rightarrow> (string \<rightharpoonup> num) \<Rightarrow> io \<Rightarrow> ((string \<rightharpoonup> num) \<times> io) option" where
  "map_inputs_loop [] provided row s = Some (row, s)"
| "map_inputs_loop (feat # feats) provided row s =
     (case feature_value feat provided s of
        None \<Rightarrow> None
      | Some (val, s') \<Rightarrow> map_inputs_loop feats provided (row(feat \<mapsto> val)) s')"

definition map_inputs_to_features :: "string list \<Rightarrow> (string \<rightharpoonup> num) \<Rightarrow> io \<Rightarrow> ((string \<rightharpoonup> num) \<times> io) option" where
  "map_inputs_to_features features provided s = map_inputs_loop features provided Map.empty s"

section \<open>predict.py: the artifact\<close>

text \<open>
  The Python values a deserialised bundle can hold, as far as the code looks at them.
  An estimator is an object with a \<^verbatim>\<open>predict\<close> method: given a row it raises (the
  message on the left) or returns the array of labels.
\<close>

datatype pyobj =
    PyNone
  | PyNum num
  | PyStr string
  | PyList "pyobj list"
  | PyDict "(string \<times> pyobj) list"
  | PyEstimator "predict_arg \<Rightarrow> string + num list"

datatype error =
    RuntimeError string
  | AttributeError string
  | TypeError string
  | IndexError string
  | KeyError string
  | ValueError string

fun message :: "error \<Rightarrow> string" where
  "message (RuntimeError m) = m"
| "message (AttributeError m) = m"
| "message (TypeError m) = m"
| "message (IndexError m) = m"
| "message (KeyError m) = m"
| "message (ValueError m) = m"

text \<open>Python's truth value; an object without \<^verbatim>\<open>__bool__\<close> or \<^verbatim>\<open>__len__\<close> is true.\<close>

fun truthy :: "pyobj \<Rightarrow> bool" where
  "truthy PyNone = False"
| "truthy (PyNum n) = (n \<noteq> 0)"
| "truthy (PyStr s) = (s \<noteq> [])"
| "truthy (PyList xs) = (xs \<noteq> [])"
| "truthy (PyDict d) = (d \<noteq> [])"
| "truthy (PyEstimator f) = True"

text \<open>\<^verbatim>\<open>hasattr(v, "predict")\<close>\<close>

fun has_predict :: "pyobj \<Rightarrow> bool" where
  "has_predict (PyEstimator f) = True"
| "has_predict v = False"

text \<open>\<^verbatim>\<open>a or b\<close>\<close>

definition py_or :: "pyobj \<Rightarrow> pyobj \<Rightarrow> pyobj" where
  "py_or a b = (if truthy a then a else b)"

text \<open>\<^verbatim>\<open>d.get(k)\<close>\<close>

definition dict_get :: "(string \<times> pyobj) list \<Rightarrow> string \<Rightarrow> pyobj" where
  "dict_get d k = (case map_of d k of None \<Rightarrow> PyNone | Some v \<Rightarrow> v)"

text \<open>
  \<^verbatim>\<open>load_artifact\<close>, from the object \<^verbatim>\<open>joblib.load\<close> returned. The only \<^verbatim>\<open>raise\<close> is
  the last line, reached when the object is not a dict and has no \<^verbatim>\<open>predict\<close>.
\<close>

definition load_artifact :: "pyobj \<Rightarrow> error + (pyobj \<times> pyobj \<times> pyobj)" where
  "load_artifact obj =
     (case obj of
        PyDict d \<Rightarrow>
          (let model = py_or (py_or (dict_get d ''model'') (dict_get d ''pipeline'')) PyNone;
               features = py_or (py_or (dict_get d ''features'') (dict_get d ''feature_names'')) PyNone;
               metadata = (case map_of d ''metadata'' of None \<Rightarrow> PyDict [] | Some m \<Rightarrow> m);
               model' = (case model of
                           PyNone \<Rightarrow> (case find has_predict (map snd d) of
                                        Some v \<Rightarrow> v
                                      | None \<Rightarrow> PyNone)
                         | _ \<Rightarrow> model)
           in Inr (model', features, metadata))
      | _ \<Rightarrow>
          (if has_predict obj then Inr (obj, PyNone, PyDict [])
           else Inl (RuntimeError ''Model artifact does not contain a sklearn model or expected dict.'')))"

section \<open>predict.py: the run\<close>

record args =
  model :: string
  soil :: "num option"
  temp :: "num option"
  hum :: "num option"
  from_db :: bool
  device_id :: "string option"
  mongo_uri :: string
  raw :: bool

text \<open>The fields \<^verbatim>\<open>fetch_latest_sensor_data\<close> returns.\<close>

record sensor_data =
  moisture :: "num option"
  temperature :: "num option"
  humidity :: "num option"
  sensor_deviceId :: "string option"
  timestamp :: int

text \<open>
  Everything outside the process: the command line, the file system, the two MongoDB
  collections, the clock and the operator at the keyboard. A store operation raises
  (the message on the left) or returns.
\<close>

record world =
  argv :: args
  path_exists :: "string \<Rightarrow> bool"
  joblib_load :: "string \<Rightarrow> error + pyobj"
  find_one :: "string \<Rightarrow> string option \<Rightarrow> string + sensor_data option"
  insert_one :: "string \<Rightarrow> prediction_doc \<Rightarrow> string + string"
  utcnow :: string
  answers :: "num option list"

text \<open>
  \<^verbatim>\<open>fetch_latest_sensor_data\<close>: the filter has the device id only when it is a
  non-empty string; no document is a \<^verbatim>\<open>ValueError\<close>; every exception is wrapped in a
  \<^verbatim>\<open>RuntimeError\<close>.
\<close>

definition fetch_latest_sensor_data :: "world \<Rightarrow> string \<Rightarrow> string option \<Rightarrow> error + sensor_data" where
  "fetch_latest_sensor_data w uri dev =
     (let filter_query = (case dev of Some d \<Rightarrow> (if d = [] then None else Some d) | None \<Rightarrow> None)
      in case find_one w uri filter_query of
           Inl e \<Rightarrow> Inl (RuntimeError (''Failed to fetch from MongoDB: '' @ e))
         | Inr None \<Rightarrow>
             Inl (RuntimeError (''Failed to fetch from MongoDB: No sensor data found'' @
                    (case filter_query of Some d \<Rightarrow> '' for device '' @ d | None \<Rightarrow> [])))
         | Inr (Some latest) \<Rightarrow> Inr latest)"

text \<open>
  \<^verbatim>\<open>save_prediction_to_db\<close> with its default \<^verbatim>\<open>water_mm=10\<close> and \<^verbatim>\<open>pump_time_sec=20\<close>.
\<close>

definition save_prediction_to_db :: "world \<Rightarrow> string \<Rightarrow> string option \<Rightarrow> int \<Rightarrow> io \<Rightarrow> (error + string) \<times> io" where
  "save_prediction_to_db w uri dev pump_status s =
     (let prediction_doc =
            \<lparr>deviceId = (case dev of Some d \<Rightarrow> (if d = [] then ''unknown'' else d) | None \<Rightarrow> ''unknown''),
             waterMM = 10, pumpTimeSec = 20,
             predictionId = utcnow w @ ''Z'',
             used = (pump_status = 0)\<rparr>
      in case insert_one w uri prediction_doc of
           Inl e \<Rightarrow> (Inl (RuntimeError (''Failed to save prediction to MongoDB: '' @ e)), s)
         | Inr inserted_id \<Rightarrow> (Inr inserted_id, s\<lparr>inserted := inserted s @ [prediction_doc]\<rparr>))"

text \<open>The dict \<^verbatim>\<open>provided\<close>: three keys, each with a value or \<^verbatim>\<open>None\<close>.\<close>

definition provided_of :: "num option \<Rightarrow> num option \<Rightarrow> num option \<Rightarrow> (string \<rightharpoonup> num)" where
  "provided_of a b c =
     (\<lambda>k. if k = ''soil'' then a else if k = ''temp'' then b else if k = ''hum'' then c else None)"

text \<open>
  OBTAIN_RAW_INPUT: the sensor store when \<^verbatim>\<open>--from-db\<close> is given, the command line
  otherwise. On the left the run has ended with that exit status.
\<close>

definition obtain_raw_input :: "world \<Rightarrow> io \<Rightarrow> (nat \<times> io) + ((string \<rightharpoonup> num) \<times> string option \<times> io)" where
  "obtain_raw_input w s =
     (let a = argv w in
      if from_db a then
        (let s1 = print FetchingSensorData s in
         case fetch_latest_sensor_data w (mongo_uri a) (device_id a) of
           Inl e \<Rightarrow> Inl (1, eprint (ErrorFetching (message e)) s1)
         | Inr sd \<Rightarrow>
             Inr (provided_of (moisture sd) (temperature sd) (humidity sd),
                  sensor_deviceId sd,
                  print (ShowHumidity (humidity sd))
                    (print (ShowTemperature (temperature sd))
                      (print (ShowMoisture (moisture sd))
                        (print (UsingDevice (sensor_deviceId sd)) s1)))))
      else Inr (provided_of (soil a) (temp a) (hum a), None, s))"

text \<open>
  \<^verbatim>\<open>list(features)\<close> and the names the loop then lower-cases: a list of strings, or a
  string (its characters). Anything else raises before a row exists.
\<close>

fun str_items :: "pyobj list \<Rightarrow> string list option" where
  "str_items [] = Some []"
| "str_items (PyStr s # xs) = (case str_items xs of None \<Rightarrow> None | Some ss \<Rightarrow> Some (s # ss))"
| "str_items (x # xs) = None"

fun feature_list :: "pyobj \<Rightarrow> error + string list" where
  "feature_list (PyList xs) =
     (case str_items xs of
        Some ss \<Rightarrow> Inr ss
      | None \<Rightarrow> Inl (AttributeError ''object has no attribute lower''))"
| "feature_list (PyStr s) = Inr (map (\<lambda>c. [c]) s)"
| "feature_list (PyDict d) = Inr (map fst d)"
| "feature_list v = Inl (TypeError ''object is not iterable'')"

text \<open>
  The \<^verbatim>\<open>else\<close> branch of RECONCILE: \<^verbatim>\<open>for k in ("soil","temp","hum")\<close>, prompting for
  each key whose value is \<^verbatim>\<open>None\<close>.
\<close>

fun fill_missing :: "string list \<Rightarrow> (string \<rightharpoonup> num) \<Rightarrow> io \<Rightarrow> ((string \<rightharpoonup> num) \<times> io) option" where
  "fill_missing [] provided s = Some (provided, s)"
| "fill_missing (k # ks) provided s =
     (case provided k of
        Some v \<Rightarrow> fill_missing ks provided s
      | None \<Rightarrow>
          (case prompt_float k s of
             None \<Rightarrow> None
           | Some (v, s') \<Rightarrow> fill_missing ks (provided(k \<mapsto> v)) s'))"

text \<open>
  RECONCILE (\<^verbatim>\<open>if features: ... else: ...\<close>): the one-row frame \<open>X\<close>. \<open>None\<close>: a prompt
  never returned. On the left an exception left \<^verbatim>\<open>main\<close>.
\<close>

definition reconcile :: "pyobj \<Rightarrow> (string \<rightharpoonup> num) \<Rightarrow> io \<Rightarrow> (error + predict_arg \<times> io) option" where
  "reconcile features provided s =
     (if truthy features then
        (case feature_list features of
           Inl e \<Rightarrow> Some (Inl e)
         | Inr fs \<Rightarrow>
             (case map_inputs_to_features fs provided s of
                None \<Rightarrow> None
              | Some (row, s') \<Rightarrow> Some (Inr (Structured fs (map row fs), s'))))
      else
        (case fill_missing [''soil'', ''temp'', ''hum''] provided s of
           None \<Rightarrow> None
         | Some (provided', s') \<Rightarrow>
             Some (Inr (Structured [''soil'', ''temp'', ''hum'']
                          [provided' ''soil'', provided' ''temp'', provided' ''hum''], s'))))"

text \<open>
  \<^verbatim>\<open>model.predict(arg)\<close>: an object without the method raises on the attribute
  lookup, and no call is made.
\<close>

definition call_predict :: "pyobj \<Rightarrow> predict_arg \<Rightarrow> io \<Rightarrow> (string + num list) \<times> io" where
  "call_predict m x s =
     (case m of
        PyEstimator f \<Rightarrow> (f x, s\<lparr>calls := calls s @ [x]\<rparr>)
      | _ \<Rightarrow> (Inl ''object has no attribute predict'', s))"

text \<open>\<^verbatim>\<open>X.values\<close>\<close>

fun values_of :: "predict_arg \<Rightarrow> predict_arg" where
  "values_of (Structured names vs) = Flat vs"
| "values_of (Flat vs) = Flat vs"

text \<open>
  PREDICT: \<^verbatim>\<open>try: model.predict(X)\<close>, in its handler \<^verbatim>\<open>try: model.predict(X.values)\<close>,
  in that one's handler the message with both exceptions and \<^verbatim>\<open>sys.exit(1)\<close>.
\<close>

definition predict_step :: "pyobj \<Rightarrow> predict_arg \<Rightarrow> io \<Rightarrow> (nat \<times> io) + (num list \<times> io)" where
  "predict_step m X s =
     (case call_predict m X s of
        (Inr yhat, s1) \<Rightarrow> Inr (yhat, s1)
      | (Inl e, s1) \<Rightarrow>
          (case call_predict m (values_of X) s1 of
             (Inr yhat, s2) \<Rightarrow> Inr (yhat, s2)
           | (Inl e2, s2) \<Rightarrow> Inl (1, print (PredictFailed e e2) s2)))"

text \<open>\<^verbatim>\<open>int(x)\<close> of a float: towards zero.\<close>

definition py_int :: "num \<Rightarrow> int" where
  "py_int x = (if 0 \<le> x then \<lfloor>x\<rfloor> else \<lceil>x\<rceil>)"

text \<open>
  REPORT: \<^verbatim>\<open>out = int(yhat[0])\<close> and the decision line. An empty \<^verbatim>\<open>yhat\<close> raises an
  \<^verbatim>\<open>IndexError\<close> that nothing catches.
\<close>

definition report :: "bool \<Rightarrow> num list \<Rightarrow> io \<Rightarrow> (nat \<times> io) + (int \<times> io)" where
  "report raw_flag yhat s =
     (case yhat of
        [] \<Rightarrow> Inl (1, eprint (Traceback ''IndexError'') s)
      | y # ys \<Rightarrow>
          (let out = py_int y
           in Inr (out, print (if raw_flag then RawOut out
                               else if out = 1 then PumpOn else PumpOff) s)))"

text \<open>
  PERSIST: the \<^verbatim>\<open>try\<close> around \<^verbatim>\<open>save_prediction_to_db\<close>; its handler only prints a
  warning. \<^verbatim>\<open>main\<close> then returns, and the process ends with status 0.
\<close>

definition persist :: "world \<Rightarrow> string option \<Rightarrow> int \<Rightarrow> io \<Rightarrow> nat \<times> io" where
  "persist w dev out s =
     (case save_prediction_to_db w (mongo_uri (argv w)) dev out (print SavingPrediction s) of
        (Inr inserted_id, s') \<Rightarrow> (0, print (PredictionSaved inserted_id) s')
      | (Inl e, s') \<Rightarrow> (0, eprint (SaveWarning (message e)) s'))"

text \<open>
  The run from START to RECONCILE. On the left the run has ended with that exit
  status (an uncaught exception ends it with status 1 and a traceback); on the right
  the model handle, the row \<open>X\<close>, the device id for the record, and the console.
  \<open>None\<close>: a prompt never returned.
\<close>

definition prepare :: "world \<Rightarrow> ((nat \<times> io) + (pyobj \<times> predict_arg \<times> string option \<times> io)) option" where
  "prepare w =
     (let a = argv w;
          s0 = \<lparr>stdin = answers w, stdout = [], stderr = [], calls = [], inserted = []\<rparr>
      in if \<not> path_exists w (model a) then Some (Inl (1, print (ModelFileNotFound (model a)) s0))
         else case joblib_load w (model a) of
           Inl e \<Rightarrow> Some (Inl (1, eprint (Traceback (message e)) s0))
         | Inr obj \<Rightarrow>
         (case load_artifact obj of
           Inl e \<Rightarrow> Some (Inl (1, eprint (Traceback (message e)) s0))
         | Inr (mdl, features, metadata) \<Rightarrow>
         (case mdl of
           PyNone \<Rightarrow> Some (Inl (1, print NoModelFound s0))
         | _ \<Rightarrow>
         (case obtain_raw_input w s0 of
           Inl r \<Rightarrow> Some (Inl r)
         | Inr (provided, dev, s1) \<Rightarrow>
         (case reconcile features provided s1 of
           None \<Rightarrow> None
         | Some (Inl e) \<Rightarrow> Some (Inl (1, eprint (Traceback (message e)) s1))
         | Some (Inr (X, s2)) \<Rightarrow> Some (Inr (mdl, X, dev, s2)))))))"

text \<open>
  The run up to and including REPORT: on the right the decision, the device id and
  the console.
\<close>

definition decide :: "world \<Rightarrow> ((nat \<times> io) + (int \<times> string option \<times> io)) option" where
  "decide w =
     (case prepare w of
        None \<Rightarrow> None
      | Some (Inl r) \<Rightarrow> Some (Inl r)
      | Some (Inr (mdl, X, dev, s2)) \<Rightarrow>
          (case predict_step mdl X s2 of
             Inl r \<Rightarrow> Some (Inl r)
           | Inr (yhat, s3) \<Rightarrow>
               (case report (raw (argv w)) yhat s3 of
                  Inl r \<Rightarrow> Some (Inl r)
                | Inr (out, s4) \<Rightarrow> Some (Inr (out, dev, s4)))))"

text \<open>\<^verbatim>\<open>main\<close>: the exit status and the console, or \<open>None\<close> when a prompt never returned.\<close>

definition main :: "world \<Rightarrow> (nat \<times> io) option" where
  "main w =
     (case decide w of
        None \<Rightarrow> None
      | Some (Inl r) \<Rightarrow> Some r
      | Some (Inr (out, dev, s)) \<Rightarrow> Some (persist w dev out s))"

text \<open>
  A concrete run for checking the theorems below on: the model file exists and holds
  \<open>obj\<close>, the three raw inputs come from the command line, nobody is at the keyboard,
  and the prediction store behaves as \<open>store\<close>.
\<close>

definition example_world :: "pyobj \<Rightarrow> (prediction_doc \<Rightarrow> string + string) \<Rightarrow> world" where
  "example_world obj store =
     \<lparr>argv = \<lparr>model = ''model.pkl'', soil = Some (47 / 2), temp = Some 19, hum = Some 55,
              from_db = False, device_id = None, mongo_uri = ''mongodb://127.0.0.1:27017'',
              raw = False\<rparr>,
      path_exists = (\<lambda>p. True),
      joblib_load = (\<lambda>p. Inr obj),
      find_one = (\<lambda>uri dev. Inr None),
      insert_one = (\<lambda>uri. store),
      utcnow = ''2024-01-01T00:00:00'',
      answers = []\<rparr>"

section \<open>feature_engineering.py: frames\<close>

text \<open>
  A pandas DataFrame over a DatetimeIndex: the index holds the timestamps in
  nanoseconds since the epoch, and every column holds one cell per row, \<open>None\<close> where
  pandas has \<^verbatim>\<open>NaN\<close>. The columns are an association list: their order is the order
  of \<^verbatim>\<open>df.columns\<close>. A Series is an index with one column of cells.
\<close>

type_synonym cells = "num option list"

record frame =
  index :: "int list"
  columns :: "(string \<times> cells) list"

record series =
  s_index :: "int list"
  s_values :: cells

text \<open>Every column has one cell per row, and no column name occurs twice.\<close>

definition well_formed :: "frame \<Rightarrow> bool" where
  "well_formed f \<longleftrightarrow>
     list_all (\<lambda>(c, xs). length xs = length (index f)) (columns f) \<and>
     distinct (map fst (columns f))"

text \<open>\<^verbatim>\<open>df[name]\<close>: a missing column is a \<^verbatim>\<open>KeyError\<close>.\<close>

definition get_col :: "frame \<Rightarrow> string \<Rightarrow> error + cells" where
  "get_col f name =
     (case map_of (columns f) name of None \<Rightarrow> Inl (KeyError name) | Some xs \<Rightarrow> Inr xs)"

text \<open>
  \<^verbatim>\<open>df[name] = cells\<close>: an existing column is replaced where it stands, a new one is
  appended.
\<close>

fun set_col :: "string \<Rightarrow> cells \<Rightarrow> (string \<times> cells) list \<Rightarrow> (string \<times> cells) list" where
  "set_col name vs [] = [(name, vs)]"
| "set_col name vs ((c, xs) # rest) =
     (if c = name then (c, vs) # rest else (c, xs) # set_col name vs rest)"

definition assign :: "string \<Rightarrow> cells \<Rightarrow> frame \<Rightarrow> frame" where
  "assign name vs f = f\<lparr>columns := set_col name vs (columns f)\<rparr>"

text \<open>\<^verbatim>\<open>df[[n1, n2, ...]]\<close>: the named columns in the order asked for.\<close>

fun select_cols :: "string list \<Rightarrow> (string \<times> cells) list \<Rightarrow> error + (string \<times> cells) list" where
  "select_cols [] cols = Inr []"
| "select_cols (n # ns) cols =
     (case map_of cols n of
        None \<Rightarrow> Inl (KeyError n)
      | Some xs \<Rightarrow>
          (case select_cols ns cols of
             Inl e \<Rightarrow> Inl e
           | Inr r \<Rightarrow> Inr ((n, xs) # r)))"

definition select_columns :: "string list \<Rightarrow> frame \<Rightarrow> error + frame" where
  "select_columns names f =
     (case select_cols names (columns f) of
        Inl e \<Rightarrow> Inl e
      | Inr cs \<Rightarrow> Inr (f\<lparr>columns := cs\<rparr>))"

text \<open>The rows at the given positions, in that order.\<close>

definition take_rows :: "nat list \<Rightarrow> frame \<Rightarrow> frame" where
  "take_rows keep f =
     \<lparr>index = map (\<lambda>i. index f ! i) keep,
      columns = map (\<lambda>(c, xs). (c, map (\<lambda>i. xs ! i) keep)) (columns f)\<rparr>"

text \<open>\<^verbatim>\<open>df.dropna()\<close>: the rows without a missing cell.\<close>

definition complete_row :: "frame \<Rightarrow> nat \<Rightarrow> bool" where
  "complete_row f i = list_all (\<lambda>(c, xs). xs ! i \<noteq> None) (columns f)"

definition dropna :: "frame \<Rightarrow> frame" where
  "dropna f = take_rows (filter (complete_row f) [0..<length (index f)]) f"

text \<open>\<^verbatim>\<open>df.dropna(subset=[name])\<close>: the rows whose cell in that column is not missing.\<close>

definition dropna_subset :: "string \<Rightarrow> frame \<Rightarrow> error + frame" where
  "dropna_subset name f =
     (case get_col f name of
        Inl e \<Rightarrow> Inl e
      | Inr xs \<Rightarrow> Inr (take_rows (filter (\<lambda>i. xs ! i \<noteq> None) [0..<length (index f)]) f))"

subsection \<open>Operations on one column\<close>

text \<open>
  \<^verbatim>\<open>s.shift(k)\<close>: row \<open>i\<close> gets the cell of row \<open>i - k\<close>, missing when there is no such
  row. A negative \<open>k\<close> shifts towards the start.
\<close>

definition shift :: "int \<Rightarrow> cells \<Rightarrow> cells" where
  "shift k xs =
     map (\<lambda>i. let j = int i - k
               in if 0 \<le> j \<and> j < int (length xs) then xs ! nat j else None)
       [0..<length xs]"

text \<open>\<^verbatim>\<open>a - b\<close> on two columns of one frame: missing where either cell is.\<close>

fun minus_cell :: "num option \<Rightarrow> num option \<Rightarrow> num option" where
  "minus_cell (Some a) (Some b) = Some (a - b)"
| "minus_cell a b = None"

definition minus_cells :: "cells \<Rightarrow> cells \<Rightarrow> cells" where
  "minus_cells xs ys = map (\<lambda>(a, b). minus_cell a b) (zip xs ys)"

text \<open>The cells that are not missing, and their arithmetic mean (none for no cell).\<close>

fun present :: "cells \<Rightarrow> num list" where
  "present [] = []"
| "present (None # xs) = present xs"
| "present (Some v # xs) = v # present xs"

definition mean :: "num list \<Rightarrow> num option" where
  "mean vs = (if vs = [] then None else Some (sum_list vs / of_nat (length vs)))"

text \<open>
  \<^verbatim>\<open>s.rolling(window=w, min_periods=m).mean()\<close>: the mean of the cells present among
  the last \<open>w\<close> rows up to the current one, missing when fewer than \<open>m\<close> are present.
\<close>

definition rolling_mean :: "nat \<Rightarrow> nat \<Rightarrow> cells \<Rightarrow> cells" where
  "rolling_mean w m xs =
     map (\<lambda>i. let vs = present (map (\<lambda>j. xs ! j) [Suc i - w..<Suc i])
               in if m \<le> length vs then mean vs else None)
       [0..<length xs]"

text \<open>
  \<^verbatim>\<open>s.ffill(limit=n)\<close>: a missing cell takes the last cell that was present, for at
  most \<open>n\<close> missing cells in a row. \<open>prev\<close> is that cell, \<open>gap\<close> the number of missing
  cells since it.
\<close>

fun ffill_from :: "num option \<Rightarrow> nat \<Rightarrow> nat \<Rightarrow> cells \<Rightarrow> cells" where
  "ffill_from prev gap limit [] = []"
| "ffill_from prev gap limit (Some v # xs) = Some v # ffill_from (Some v) 0 limit xs"
| "ffill_from prev gap limit (None # xs) =
     (if gap < limit then prev else None) # ffill_from prev (Suc gap) limit xs"

definition ffill :: "nat \<Rightarrow> cells \<Rightarrow> cells" where
  "ffill limit xs = ffill_from None 0 limit xs"

subsection \<open>The calendar\<close>

definition hour_ns :: int where
  "hour_ns = 3600 * 10 ^ 9"

definition day_ns :: int where
  "day_ns = 86400 * 10 ^ 9"

definition hour :: "int \<Rightarrow> int" where
  "hour t = (t div hour_ns) mod 24"

text \<open>Monday is 0; the epoch was a Thursday.\<close>

definition dayofweek :: "int \<Rightarrow> int" where
  "dayofweek t = (t div day_ns + 3) mod 7"

definition is_leap :: "int \<Rightarrow> bool" where
  "is_leap y \<longleftrightarrow> y mod 4 = 0 \<and> (y mod 100 \<noteq> 0 \<or> y mod 400 = 0)"

text \<open>
  The day of the year, 1 to 366, from the days since the epoch: the position in the
  400-year cycle gives the year that starts on 1 March and the day in it.
\<close>

definition dayofyear :: "int \<Rightarrow> int" where
  "dayofyear t =
     (let z = t div day_ns + 719468;
          era = z div 146097;
          doe = z mod 146097;
          yoe = (doe - doe div 1460 + doe div 36524 - doe div 146096) div 365;
          doy = doe - (365 * yoe + yoe div 4 - yoe div 100);
          y = yoe + era * 400
      in if doy < 306 then doy + 60 + (if is_leap y then 1 else 0) else doy - 305)"

definition calendar_cells :: "(int \<Rightarrow> int) \<Rightarrow> int list \<Rightarrow> cells" where
  "calendar_cells field idx = map (\<lambda>t. Some (of_int (field t))) idx"

subsection \<open>Formatted names\<close>

text \<open>\<^verbatim>\<open>str\<close> of an integer, as an f-string writes it.\<close>

fun digits :: "nat \<Rightarrow> string" where
  "digits n = (if n < 10 then [char_of (48 + n)] else digits (n div 10) @ [char_of (48 + n mod 10)])"

declare digits.simps [simp del]

definition str_int :: "int \<Rightarrow> string" where
  "str_int i = (if i < 0 then CHR ''-'' # digits (nat (- i)) else digits (nat i))"

definition lag_name :: "int \<Rightarrow> string" where
  "lag_name lag = ''moisture_lag_'' @ str_int lag"

definition target_name :: "int \<Rightarrow> string" where
  "target_name horizon = ''target_t_plus_'' @ str_int horizon"

section \<open>feature_engineering.py: the pipeline\<close>

subsection \<open>resample_and_aggregate\<close>

text \<open>
  \<^verbatim>\<open>df.resample(rule).mean()\<close> for a rule of \<open>w\<close> nanoseconds. The buckets are
  \<open>[origin + b * w, origin + (b + 1) * w)\<close>, with the origin at midnight of the first
  timestamp's day; the result has one row for each bucket from the one of the earliest
  timestamp to the one of the latest, empty buckets included, labelled with the
  bucket's start. A cell is the mean of the cells present in the bucket.
\<close>

definition bucket_of :: "int \<Rightarrow> int \<Rightarrow> int \<Rightarrow> int" where
  "bucket_of origin w t = (t - origin) div w"

definition in_bucket :: "int \<Rightarrow> int \<Rightarrow> int \<Rightarrow> int list \<Rightarrow> cells \<Rightarrow> cells" where
  "in_bucket origin w b idx xs =
     map snd (filter (\<lambda>(t, x). bucket_of origin w t = b) (zip idx xs))"

definition resample_mean :: "int \<Rightarrow> frame \<Rightarrow> frame" where
  "resample_mean w f =
     (if index f = [] then \<lparr>index = [], columns = map (\<lambda>(c, xs). (c, [])) (columns f)\<rparr>
      else
        (let tmin = Min (set (index f));
             tmax = Max (set (index f));
             origin = tmin - tmin mod day_ns;
             b0 = bucket_of origin w tmin;
             n = Suc (nat (bucket_of origin w tmax - b0))
         in \<lparr>index = map (\<lambda>j. origin + (b0 + int j) * w) [0..<n],
             columns =
               map (\<lambda>(c, xs).
                     (c, map (\<lambda>j. mean (present (in_bucket origin w (b0 + int j) (index f) xs)))
                           [0..<n]))
                 (columns f)\<rparr>))"

text \<open>
  \<^verbatim>\<open>resample_and_aggregate\<close>. The rule \<^verbatim>\<open>f"{interval_minutes}T"\<close> is a number of minutes;
  pandas takes no rule that is not positive.
\<close>

definition resample_and_aggregate :: "frame \<Rightarrow> int \<Rightarrow> error + frame" where
  "resample_and_aggregate df interval_minutes =
     (case select_columns [''moisture'', ''temperature'', ''humidity''] df of
        Inl e \<Rightarrow> Inl e
      | Inr sel \<Rightarrow>
          (if interval_minutes \<le> 0 then Inl (ValueError ''invalid frequency'')
           else
             (let agg = resample_mean (interval_minutes * 60 * 10 ^ 9) sel
              in Inr (agg\<lparr>columns := map (\<lambda>(c, xs). (c, ffill 2 xs)) (columns agg)\<rparr>))))"

subsection \<open>create_lag_features\<close>

text \<open>The loop \<^verbatim>\<open>for lag in range(1, lags + 1)\<close>.\<close>

fun add_lags :: "int list \<Rightarrow> frame \<Rightarrow> error + frame" where
  "add_lags [] X = Inr X"
| "add_lags (lag # rest) X =
     (case get_col X ''moisture'' of
        Inl e \<Rightarrow> Inl e
      | Inr m \<Rightarrow> add_lags rest (assign (lag_name lag) (shift lag m) X))"

definition create_lag_features :: "frame \<Rightarrow> int \<Rightarrow> error + frame" where
  "create_lag_features df lags =
     (case add_lags [1..lags] df of
        Inl e \<Rightarrow> Inl e
      | Inr X1 \<Rightarrow>
     (case get_col X1 ''moisture'' of
        Inl e \<Rightarrow> Inl e
      | Inr m \<Rightarrow>
     (let X2 = assign ''moisture_diff_1'' (minus_cells m (shift 1 m)) X1 in
      case get_col X2 ''moisture'' of
        Inl e \<Rightarrow> Inl e
      | Inr m2 \<Rightarrow>
     (let X3 = assign ''moisture_rolling_mean_3'' (rolling_mean 3 1 m2) X2;
          X4 = assign ''hour'' (calendar_cells hour (index X3)) X3;
          X5 = assign ''dayofyear'' (calendar_cells dayofyear (index X4)) X4;
          X6 = assign ''dayofweek'' (calendar_cells dayofweek (index X5)) X5
      in Inr (dropna X6)))))"

subsection \<open>build_dataset\<close>

text \<open>
  \<^verbatim>\<open>s.reindex(labels)\<close>: the cell of each label, missing for a label the series does
  not have. A series with a label twice cannot be reindexed.
\<close>

definition reindex :: "series \<Rightarrow> int list \<Rightarrow> error + series" where
  "reindex s labels =
     (if \<not> distinct (s_index s)
      then Inl (ValueError ''cannot reindex on an axis with duplicate labels'')
      else Inr \<lparr>s_index = labels,
                s_values = map (\<lambda>l. case map_of (zip (s_index s) (s_values s)) l of
                                      None \<Rightarrow> None | Some x \<Rightarrow> x) labels\<rparr>)"

text \<open>The test of the list comprehension over \<^verbatim>\<open>df.columns\<close>.\<close>

definition is_feature :: "string \<Rightarrow> bool" where
  "is_feature c \<longleftrightarrow>
     prefix ''moisture_lag_'' c \<or> prefix ''moisture_rolling'' c \<or>
     c \<in> set [''moisture_diff_1'', ''temperature'', ''humidity'', ''hour'', ''dayofyear'', ''dayofweek'']"

definition build_dataset :: "frame \<Rightarrow> int \<Rightarrow> int \<Rightarrow> error + frame \<times> series" where
  "build_dataset agg_df lags horizon =
     (case create_lag_features agg_df lags of
        Inl e \<Rightarrow> Inl e
      | Inr df \<Rightarrow>
     (case get_col agg_df ''moisture'' of
        Inl e \<Rightarrow> Inl e
      | Inr m \<Rightarrow>
     (case reindex \<lparr>s_index = index agg_df, s_values = shift (- horizon) m\<rparr> (index df) of
        Inl e \<Rightarrow> Inl e
      | Inr target \<Rightarrow>
     (case dropna_subset (target_name horizon) (assign (target_name horizon) (s_values target) df) of
        Inl e \<Rightarrow> Inl e
      | Inr df' \<Rightarrow>
     (let feature_cols = filter is_feature (map fst (columns df')) in
      case select_columns feature_cols df' of
        Inl e \<Rightarrow> Inl e
      | Inr X \<Rightarrow>
     (case get_col df' (target_name horizon) of
        Inl e \<Rightarrow> Inl e
      | Inr y \<Rightarrow> Inr (X, \<lparr>s_index = index df', s_values = y\<rparr>)))))))"

text \<open>
  For stating what a resampled cell is: the cells of the observations whose timestamp
  lies in \<open>[lo, hi)\<close>.
\<close>

definition cells_between :: "int \<Rightarrow> int \<Rightarrow> int list \<Rightarrow> cells \<Rightarrow> cells" where
  "cells_between lo hi idx xs = map snd (filter (\<lambda>(t, x). lo \<le> t \<and> t < hi) (zip idx xs))"

text \<open>
  A feed for checking the theorems below on: observations ten minutes apart over two
  hours, starting at midnight of the epoch's day, with moisture falling by one each.
\<close>

definition minute_ns :: int where
  "minute_ns = 60 * 10 ^ 9"

definition example_feed :: frame where
  "example_feed =
     \<lparr>index = map (\<lambda>i. int i * 10 * minute_ns) [0..<12],
      columns =
        [(''moisture'', map (\<lambda>i. Some (50 - of_nat i)) [0..<12]),
         (''temperature'', map (\<lambda>i. Some 20) [0..<12]),
         (''humidity'', map (\<lambda>i. Some 60) [0..<12])]\<rparr>"

text \<open>
  A feed with a hole: two observations in the first quarter of an hour, none in the
  next three, one in the fifth.
\<close>

definition gappy_feed :: frame where
  "gappy_feed =
     \<lparr>index = [0, 5 * minute_ns, 70 * minute_ns],
      columns =
        [(''moisture'', [Some 50, Some 49, Some 40]),
         (''temperature'', [Some 20, Some 21, Some 22]),
         (''humidity'', [Some 60, Some 61, Some 62])]\<rparr>"

text \<open>
  The example feed resampled to quarters of an hour, and its lag features for two lags.
\<close>

definition example_resampled :: frame where
  "example_resampled =
     \<lparr>index = [0, 900000000000, 1800000000000, 2700000000000, 3600000000000,
               4500000000000, 5400000000000, 6300000000000],
      columns =
        [(''moisture'', [Some (99 / 2), Some 48, Some (93 / 2), Some 45, Some (87 / 2),
                         Some 42, Some (81 / 2), Some 39]),
         (''temperature'', [Some 20, Some 20, Some 20, Some 20, Some 20, Some 20, Some 20, Some 20]),
         (''humidity'', [Some 60, Some 60, Some 60, Some 60, Some 60, Some 60, Some 60, Some 60])]\<rparr>"

definition example_lagged :: frame where
  "example_lagged =
     \<lparr>index = [1800000000000, 2700000000000, 3600000000000, 4500000000000,
               5400000000000, 6300000000000],
      columns =
        [(''moisture'', [Some (93 / 2), Some 45, Some (87 / 2), Some 42, Some (81 / 2), Some 39]),
         (''temperature'', [Some 20, Some 20, Some 20, Some 20, Some 20, Some 20]),
         (''humidity'', [Some 60, Some 60, Some 60, Some 60, Some 60, Some 60]),
         (''moisture_lag_1'', [Some 48, Some (93 / 2), Some 45, Some (87 / 2), Some 42, Some (81 / 2)]),
         (''moisture_lag_2'', [Some (99 / 2), Some 48, Some (93 / 2), Some 45, Some (87 / 2), Some 42]),
         (''moisture_diff_1'', [Some (- (3 / 2)), Some (- (3 / 2)), Some (- (3 / 2)),
                                Some (- (3 / 2)), Some (- (3 / 2)), Some (- (3 / 2))]),
         (''moisture_rolling_mean_3'', [Some 48, Some (93 / 2), Some 45, Some (87 / 2), Some 42,
                                        Some (81 / 2)]),
         (''hour'', [Some 0, Some 0, Some 1, Some 1, Some 1, Some 1]),
         (''dayofyear'', [Some 1, Some 1, Some 1, Some 1, Some 1, Some 1]),
         (''dayofweek'', [Some 3, Some 3, Some 3, Some 3, Some 3, Some 3])]\<rparr>"

section \<open>Properties of the feature reconciliation\<close>

lemma contains_self: "contains k k"
  by (cases k) simp_all

lemma match_keywords_priority:
  "match_keywords KEYWORDS fl =
     (if contains ''soil'' fl \<or> contains ''moist'' fl then Some ''soil''
      else if contains ''temp'' fl \<or> contains ''temperature'' fl then Some ''temp''
      else if contains ''hum'' fl \<or> contains ''humid'' fl \<or> contains ''humidity'' fl then Some ''hum''
      else None)"
  by (simp add: KEYWORDS_def)

lemma feature_value_keyword:
  "match_keywords KEYWORDS (lower feat) = Some key \<Longrightarrow>
   feature_value feat provided s =
     (case provided key of Some v \<Rightarrow> Some (v, s) | None \<Rightarrow> prompt_float key s)"
  by (simp add: feature_value_def)

text \<open>
  The loop invariant of \<^verbatim>\<open>map_inputs_to_features\<close> for one name: once the name has
  the supplied value of its key, it keeps it, and a later occurrence of the name
  assigns the same value again.
\<close>

lemma map_inputs_loop_value:
  "map_inputs_loop feats provided row0 s = Some (row, s') \<Longrightarrow>
   match_keywords KEYWORDS (lower feat) = Some key \<Longrightarrow> provided key = Some v \<Longrightarrow>
   feat \<in> set feats \<or> row0 feat = Some v \<Longrightarrow> row feat = Some v"
proof (induction feats arbitrary: row0 s)
  case Nil
  then show ?case by simp
next
  case (Cons f fs)
  from Cons.prems(1) obtain val s1 where
    fv: "feature_value f provided s = Some (val, s1)" and
    rest: "map_inputs_loop fs provided (row0(f \<mapsto> val)) s1 = Some (row, s')"
    by (auto split: option.splits)
  show ?case
  proof (cases "f = feat")
    case True
    with fv Cons.prems(2,3) have "val = v"
      by (simp add: feature_value_keyword)
    with True have "(row0(f \<mapsto> val)) feat = Some v" by simp
    with Cons.IH [OF rest Cons.prems(2,3)] show ?thesis by blast
  next
    case False
    with Cons.prems(4) have "feat \<in> set fs \<or> (row0(f \<mapsto> val)) feat = Some v" by auto
    with Cons.IH [OF rest Cons.prems(2,3)] show ?thesis by blast
  qed
qed

text \<open>
  C5. For every feature name of the list, \<^verbatim>\<open>map_inputs_to_features\<close> tests the
  lower-cased name against the keyword sets in the order soil, temp, hum, and the
  first set with a keyword in the name decides: the row holds the supplied raw input
  of that key (when it is not supplied, the value is asked for under the key's name).
  A name with both \<^verbatim>\<open>soil\<close> and \<^verbatim>\<open>temp\<close> in it resolves to soil.
\<close>

theorem reconciliation_priority:
  assumes "map_inputs_to_features features provided s = Some (row, s')"
    and "feat \<in> set features"
  shows "let fl = lower feat;
             first = (if contains ''soil'' fl \<or> contains ''moist'' fl then Some ''soil''
                      else if contains ''temp'' fl \<or> contains ''temperature'' fl then Some ''temp''
                      else if contains ''hum'' fl \<or> contains ''humid'' fl \<or> contains ''humidity'' fl
                           then Some ''hum''
                      else None)
         in match_keywords KEYWORDS fl = first \<and>
            (\<forall>key v. first = Some key \<and> provided key = Some v \<longrightarrow> row feat = Some v) \<and>
            (\<forall>key s0. first = Some key \<longrightarrow>
               feature_value feat provided s0 =
                 (case provided key of Some v \<Rightarrow> Some (v, s0) | None \<Rightarrow> prompt_float key s0)) \<and>
            (contains ''soil'' fl \<and> contains ''temp'' fl \<longrightarrow> first = Some ''soil'')"
proof -
  have loop: "map_inputs_loop features provided Map.empty s = Some (row, s')"
    using assms(1) by (simp add: map_inputs_to_features_def)
  have a: "\<forall>key v. match_keywords KEYWORDS (lower feat) = Some key \<and> provided key = Some v
             \<longrightarrow> row feat = Some v"
    using map_inputs_loop_value [OF loop] assms(2) by blast
  have b: "\<forall>key s0. match_keywords KEYWORDS (lower feat) = Some key \<longrightarrow>
             feature_value feat provided s0 =
               (case provided key of Some v \<Rightarrow> Some (v, s0) | None \<Rightarrow> prompt_float key s0)"
    by (simp add: feature_value_keyword)
  from a b show ?thesis
    unfolding Let_def match_keywords_priority [symmetric]
    by (simp add: match_keywords_priority)
qed

theorem reconciliation_priority_witness:
  "map_inputs_to_features [''soil_moisture_lag_1'', ''soil_temp'']
       (provided_of (Some (47 / 2)) (Some 19) (Some 55))
       \<lparr>stdin = [], stdout = [], stderr = [], calls = [], inserted = []\<rparr>
     = Some ([''soil_moisture_lag_1'' \<mapsto> 47 / 2, ''soil_temp'' \<mapsto> 47 / 2],
             \<lparr>stdin = [], stdout = [], stderr = [], calls = [], inserted = []\<rparr>) \<and>
   ''soil_temp'' \<in> set [''soil_moisture_lag_1'', ''soil_temp''] \<and>
   contains ''soil'' (lower ''soil_temp'') \<and> contains ''temp'' (lower ''soil_temp'') \<and>
   match_keywords KEYWORDS (lower ''soil_temp'') = Some ''soil'' \<and>
   provided_of (Some (47 / 2)) (Some 19) (Some 55) ''soil'' = Some (47 / 2) \<and>
   [''soil_moisture_lag_1'' \<mapsto> 47 / 2, ''soil_temp'' \<mapsto> (47 / 2 :: num)] ''soil_temp'' = Some (47 / 2)"
proof -
  have run: "map_inputs_to_features [''soil_moisture_lag_1'', ''soil_temp'']
       (provided_of (Some (47 / 2)) (Some 19) (Some 55))
       \<lparr>stdin = [], stdout = [], stderr = [], calls = [], inserted = []\<rparr>
     = Some ([''soil_moisture_lag_1'' \<mapsto> 47 / 2, ''soil_temp'' \<mapsto> 47 / 2],
             \<lparr>stdin = [], stdout = [], stderr = [], calls = [], inserted = []\<rparr>)"
    by (simp add: map_inputs_to_features_def feature_value_def KEYWORDS_def lower_def
          lower_char_def provided_of_def)
  have mem: "''soil_temp'' \<in> set [''soil_moisture_lag_1'', ''soil_temp'']" by simp
  have low: "lower ''soil_temp'' = ''soil_temp''" by (simp add: lower_def lower_char_def)
  from reconciliation_priority [OF run mem] show ?thesis
    using run by (simp add: low provided_of_def Let_def)
qed

text \<open>
  C10. The second loop of \<^verbatim>\<open>map_inputs_to_features\<close> (the exact-name test) never
  assigns: a name whose lower-casing is \<^verbatim>\<open>soil\<close>, \<^verbatim>\<open>temp\<close> or \<^verbatim>\<open>hum\<close> contains a
  keyword of that very key, so the keyword loop has assigned it already. The function
  is therefore the keyword loop followed directly by the prompt.
\<close>

theorem exact_name_branch_unreachable:
  "(lower feat \<in> {''soil'', ''temp'', ''hum''} \<longrightarrow>
      match_keywords KEYWORDS (lower feat) = Some (lower feat)) \<and>
   (match_exact [''soil'', ''temp'', ''hum''] (lower feat) provided \<noteq> None \<longrightarrow>
      match_keywords KEYWORDS (lower feat) \<noteq> None) \<and>
   feature_value feat provided s =
     (case match_keywords KEYWORDS (lower feat) of
        Some key \<Rightarrow> (case provided key of Some val \<Rightarrow> Some (val, s) | None \<Rightarrow> prompt_float key s)
      | None \<Rightarrow> prompt_float feat s)"
proof -
  have k: "match_keywords KEYWORDS ''soil'' = Some ''soil''"
          "match_keywords KEYWORDS ''temp'' = Some ''temp''"
          "match_keywords KEYWORDS ''hum'' = Some ''hum''"
    by (simp_all add: KEYWORDS_def)
  have a: "lower feat \<in> {''soil'', ''temp'', ''hum''} \<longrightarrow>
      match_keywords KEYWORDS (lower feat) = Some (lower feat)"
    using k by auto
  have "match_exact [''soil'', ''temp'', ''hum''] (lower feat) provided \<noteq> None \<Longrightarrow>
      lower feat \<in> {''soil'', ''temp'', ''hum''}"
    by (simp split: if_splits)
  with a have b: "match_exact [''soil'', ''temp'', ''hum''] (lower feat) provided \<noteq> None \<longrightarrow>
      match_keywords KEYWORDS (lower feat) \<noteq> None"
    by auto
  from b have "match_keywords KEYWORDS (lower feat) = None \<Longrightarrow>
      match_exact [''soil'', ''temp'', ''hum''] (lower feat) provided = None"
    by blast
  then have c: "feature_value feat provided s =
     (case match_keywords KEYWORDS (lower feat) of
        Some key \<Rightarrow> (case provided key of Some val \<Rightarrow> Some (val, s) | None \<Rightarrow> prompt_float key s)
      | None \<Rightarrow> prompt_float feat s)"
    by (cases "match_keywords KEYWORDS (lower feat)") (simp_all add: feature_value_def)
  from a b c show ?thesis by blast
qed

theorem exact_name_branch_unreachable_witness:
  "lower ''Soil'' \<in> {''soil'', ''temp'', ''hum''} \<and>
   match_exact [''soil'', ''temp'', ''hum''] (lower ''Soil'') (provided_of (Some 1) None None) \<noteq> None \<and>
   match_keywords KEYWORDS (lower ''Soil'') = Some (lower ''Soil'')"
proof -
  have low: "lower ''Soil'' = ''soil''"
    by (simp add: lower_def lower_char_def char_of_def bit_Suc_0_iff)
  have ex: "match_exact [''soil'', ''temp'', ''hum''] (lower ''Soil'') (provided_of (Some 1) None None) \<noteq> None"
    by (simp add: low provided_of_def)
  from exact_name_branch_unreachable [of "''Soil''" "provided_of (Some 1) None None"] ex
  show ?thesis by (simp add: low)
qed

section \<open>Properties of the run\<close>

subsection \<open>Prompts and the fallback row\<close>

lemma prompt_loop_out:
  "prompt_loop name ins out = Some (v, rest, out') \<Longrightarrow>
   \<exists>extra. out' = out @ extra \<and> set extra \<subseteq> {EnterPrompt name, PleaseNumeric} \<and>
           EnterPrompt name \<in> set extra"
proof (induction name ins out rule: prompt_loop.induct)
  case (1 name out)
  then show ?case by simp
next
  case (2 name v0 rest0 out)
  then show ?case by auto
next
  case (3 name rest0 out)
  from 3 obtain extra where "out' = (out @ [EnterPrompt name, PleaseNumeric]) @ extra"
    "set extra \<subseteq> {EnterPrompt name, PleaseNumeric}" by auto
  then show ?case by (intro exI [of _ "[EnterPrompt name, PleaseNumeric] @ extra"]) auto
qed

lemma prompt_float_out:
  assumes "prompt_float name s = Some (v, s')"
  shows "\<exists>extra. stdout s' = stdout s @ extra \<and> set extra \<subseteq> {EnterPrompt name, PleaseNumeric} \<and>
           EnterPrompt name \<in> set extra"
  using assms prompt_loop_out [of name "stdin s" "stdout s"]
  by (auto simp: prompt_float_def split: option.splits)

lemma fill_missing_spec:
  "fill_missing ks provided s = Some (provided', s') \<Longrightarrow>
   (\<forall>k. provided k \<noteq> None \<longrightarrow> provided' k = provided k) \<and>
   (\<forall>k \<in> set ks. provided' k \<noteq> None) \<and>
   (\<exists>extra. stdout s' = stdout s @ extra \<and>
      (\<forall>name. EnterPrompt name \<in> set extra \<longleftrightarrow> name \<in> set ks \<and> provided name = None))"
proof (induction ks arbitrary: provided s)
  case Nil
  then show ?case by simp
next
  case (Cons k ks)
  show ?case
  proof (cases "provided k")
    case (Some v)
    with Cons.prems have "fill_missing ks provided s = Some (provided', s')" by simp
    from Cons.IH [OF this] Some show ?thesis by auto
  next
    case None
    with Cons.prems obtain v s1 where
      p: "prompt_float k s = Some (v, s1)" and
      r: "fill_missing ks (provided(k \<mapsto> v)) s1 = Some (provided', s')"
      by (auto split: option.splits)
    from prompt_float_out [OF p] obtain e1 where
      e1: "stdout s1 = stdout s @ e1" "set e1 \<subseteq> {EnterPrompt k, PleaseNumeric}" "EnterPrompt k \<in> set e1"
      by blast
    from Cons.IH [OF r] obtain e2 where
      keep: "\<forall>k'. (provided(k \<mapsto> v)) k' \<noteq> None \<longrightarrow> provided' k' = (provided(k \<mapsto> v)) k'" and
      full: "\<forall>k' \<in> set ks. provided' k' \<noteq> None" and
      e2: "stdout s' = stdout s1 @ e2"
          "\<forall>name. EnterPrompt name \<in> set e2 \<longleftrightarrow> name \<in> set ks \<and> (provided(k \<mapsto> v)) name = None"
      by blast
    have a: "\<forall>k'. provided k' \<noteq> None \<longrightarrow> provided' k' = provided k'"
      using keep None by (metis fun_upd_apply)
    have b: "\<forall>k' \<in> set (k # ks). provided' k' \<noteq> None"
      using keep full by auto
    have c: "stdout s' = stdout s @ (e1 @ e2)" using e1 e2 by simp
    have d: "\<forall>name. EnterPrompt name \<in> set (e1 @ e2) \<longleftrightarrow> name \<in> set (k # ks) \<and> provided name = None"
      using e1 e2 None by (auto split: if_splits)
    from a b c d show ?thesis by blast
  qed
qed

lemma fill_missing_all_supplied:
  "\<forall>k \<in> set ks. provided k \<noteq> None \<Longrightarrow> fill_missing ks provided s = Some (provided, s)"
  by (induction ks) auto

lemma reconcile_fallback_eq:
  "\<not> truthy features \<Longrightarrow>
   reconcile features provided s =
     (case fill_missing [''soil'', ''temp'', ''hum''] provided s of
        None \<Rightarrow> None
      | Some (provided', s') \<Rightarrow>
          Some (Inr (Structured [''soil'', ''temp'', ''hum'']
                       [provided' ''soil'', provided' ''temp'', provided' ''hum''], s')))"
  by (simp add: reconcile_def del: fill_missing.simps)

lemma reconcile_fallback_supplied:
  assumes "\<not> truthy features"
    and "provided ''soil'' = Some a" "provided ''temp'' = Some b" "provided ''hum'' = Some c"
  shows "reconcile features provided s =
           Some (Inr (Structured [''soil'', ''temp'', ''hum''] [Some a, Some b, Some c], s))"
proof -
  have "\<forall>k \<in> set [''soil'', ''temp'', ''hum'']. provided k \<noteq> None"
    using assms(2-4) by simp
  then have "fill_missing [''soil'', ''temp'', ''hum''] provided s = Some (provided, s)"
    by (rule fill_missing_all_supplied)
  then show ?thesis
    using assms by (simp add: reconcile_fallback_eq del: fill_missing.simps)
qed


lemma reconcile_fallback_general:
  assumes "\<not> truthy features" and r: "reconcile features provided s = Some r"
  shows "\<exists>va vb vc s'. r = Inr (Structured [''soil'', ''temp'', ''hum''] [Some va, Some vb, Some vc], s') \<and>
               (provided ''soil'' \<noteq> None \<longrightarrow> provided ''soil'' = Some va) \<and>
               (provided ''temp'' \<noteq> None \<longrightarrow> provided ''temp'' = Some vb) \<and>
               (provided ''hum'' \<noteq> None \<longrightarrow> provided ''hum'' = Some vc) \<and>
               (\<exists>extra. stdout s' = stdout s @ extra \<and>
                  (\<forall>name. EnterPrompt name \<in> set extra \<longleftrightarrow>
                     name \<in> {''soil'', ''temp'', ''hum''} \<and> provided name = None))"
proof -
  from r assms(1) obtain provided' s' where
    fm: "fill_missing [''soil'', ''temp'', ''hum''] provided s = Some (provided', s')" and
    req: "r = Inr (Structured [''soil'', ''temp'', ''hum'']
                    [provided' ''soil'', provided' ''temp'', provided' ''hum''], s')"
    by (auto simp: reconcile_fallback_eq simp del: fill_missing.simps split: option.splits)
  from fill_missing_spec [OF fm] obtain extra where
    keep: "\<forall>k. provided k \<noteq> None \<longrightarrow> provided' k = provided k" and
    full: "\<forall>k \<in> set [''soil'', ''temp'', ''hum'']. provided' k \<noteq> None" and
    ex: "stdout s' = stdout s @ extra"
        "\<forall>name. EnterPrompt name \<in> set extra \<longleftrightarrow>
           name \<in> set [''soil'', ''temp'', ''hum''] \<and> provided name = None"
    by blast
  from full have "provided' ''soil'' \<noteq> None" by simp
  then obtain va where va: "provided' ''soil'' = Some va" by blast
  from full have "provided' ''temp'' \<noteq> None" by simp
  then obtain vb where vb: "provided' ''temp'' = Some vb" by blast
  from full have "provided' ''hum'' \<noteq> None" by simp
  then obtain vc where vc: "provided' ''hum'' = Some vc" by blast
  have k1: "provided ''soil'' \<noteq> None \<longrightarrow> provided ''soil'' = Some va"
    using keep [rule_format, of "''soil''"] va by simp
  have k2: "provided ''temp'' \<noteq> None \<longrightarrow> provided ''temp'' = Some vb"
    using keep [rule_format, of "''temp''"] vb by simp
  have k3: "provided ''hum'' \<noteq> None \<longrightarrow> provided ''hum'' = Some vc"
    using keep [rule_format, of "''hum''"] vc by simp
  have pr: "\<forall>name. EnterPrompt name \<in> set extra \<longleftrightarrow>
              name \<in> {''soil'', ''temp'', ''hum''} \<and> provided name = None"
    using ex(2) by simp
  have r': "r = Inr (Structured [''soil'', ''temp'', ''hum''] [Some va, Some vb, Some vc], s')"
    using req va vb vc by simp
  have out: "\<exists>extra. stdout s' = stdout s @ extra \<and>
                  (\<forall>name. EnterPrompt name \<in> set extra \<longleftrightarrow>
                     name \<in> {''soil'', ''temp'', ''hum''} \<and> provided name = None)"
    using ex(1) pr by (intro exI [of _ extra] conjI)
  show ?thesis
    using r' k1 k2 k3 out by (intro exI [of _ va] exI [of _ vb] exI [of _ vc] exI [of _ s'] conjI)
qed

lemma prepare_fallback:
  assumes "\<not> truthy features"
    and h: "path_exists w (model (argv w)) \<and> joblib_load w (model (argv w)) = Inr obj \<and>
            load_artifact obj = Inr (mdl, features, metadata) \<and> mdl \<noteq> PyNone \<and>
            obtain_raw_input w \<lparr>stdin = answers w, stdout = [], stderr = [], calls = [], inserted = []\<rparr>
              = Inr (provided, dev, s) \<and>
            provided ''soil'' = Some a \<and> provided ''temp'' = Some b \<and> provided ''hum'' = Some c"
  shows "prepare w =
           Some (Inr (mdl, Structured [''soil'', ''temp'', ''hum''] [Some a, Some b, Some c], dev, s))"
proof -
  from h have "reconcile features provided s =
      Some (Inr (Structured [''soil'', ''temp'', ''hum''] [Some a, Some b, Some c], s))"
    by (intro reconcile_fallback_supplied assms(1)) simp_all
  with h show ?thesis
    by (cases mdl) (simp_all add: prepare_def)
qed

text \<open>The example run, evaluated up to OBTAIN_RAW_INPUT.\<close>

lemma example_world_start:
  "path_exists (example_world obj store) (model (argv (example_world obj store)))"
  "joblib_load (example_world obj store) (model (argv (example_world obj store))) = Inr obj"
  "obtain_raw_input (example_world obj store)
      \<lparr>stdin = answers (example_world obj store), stdout = [], stderr = [], calls = [], inserted = []\<rparr>
     = Inr (provided_of (Some (47 / 2)) (Some 19) (Some 55), None,
            \<lparr>stdin = [], stdout = [], stderr = [], calls = [], inserted = []\<rparr>)"
  by (simp_all add: example_world_def obtain_raw_input_def)

lemma example_provided:
  "provided_of (Some (47 / 2)) (Some 19) (Some 55) ''soil'' = Some (47 / 2)"
  "provided_of (Some (47 / 2)) (Some 19) (Some 55) ''temp'' = Some 19"
  "provided_of (Some (47 / 2)) (Some 19) (Some 55) ''hum'' = Some 55"
  by (simp_all add: provided_of_def)

lemma load_artifact_bare_estimator:
  "load_artifact (PyEstimator f) = Inr (PyEstimator f, PyNone, PyDict [])"
  by (simp add: load_artifact_def)

text \<open>
  C6. When the artifact gives no feature-name list (\<^verbatim>\<open>features\<close> is \<^verbatim>\<open>None\<close> or
  empty) and soil, temp and hum are all supplied, the row handed to the model is the
  three columns soil, temp, hum in this order with the supplied values, and nothing
  is asked. When some are missing and the run gets its answers, the row has the same
  three columns, the supplied values are unchanged, and the names prompted for are
  exactly the keys without a value. The last part says that this row is the
  \<open>X\<close> with which the run goes on to PREDICT.
\<close>

theorem fallback_row_soil_temp_hum:
  assumes "\<not> truthy features"
  shows "(provided ''soil'' = Some a \<and> provided ''temp'' = Some b \<and> provided ''hum'' = Some c \<longrightarrow>
            reconcile features provided s =
              Some (Inr (Structured [''soil'', ''temp'', ''hum''] [Some a, Some b, Some c], s))) \<and>
         (\<forall>r. reconcile features provided s = Some r \<longrightarrow>
            (\<exists>va vb vc s'. r = Inr (Structured [''soil'', ''temp'', ''hum''] [Some va, Some vb, Some vc], s') \<and>
               (provided ''soil'' \<noteq> None \<longrightarrow> provided ''soil'' = Some va) \<and>
               (provided ''temp'' \<noteq> None \<longrightarrow> provided ''temp'' = Some vb) \<and>
               (provided ''hum'' \<noteq> None \<longrightarrow> provided ''hum'' = Some vc) \<and>
               (\<exists>extra. stdout s' = stdout s @ extra \<and>
                  (\<forall>name. EnterPrompt name \<in> set extra \<longleftrightarrow>
                     name \<in> {''soil'', ''temp'', ''hum''} \<and> provided name = None)))) \<and>
         (\<forall>w obj mdl metadata dev.
            path_exists w (model (argv w)) \<and> joblib_load w (model (argv w)) = Inr obj \<and>
            load_artifact obj = Inr (mdl, features, metadata) \<and> mdl \<noteq> PyNone \<and>
            obtain_raw_input w \<lparr>stdin = answers w, stdout = [], stderr = [], calls = [], inserted = []\<rparr>
              = Inr (provided, dev, s) \<and>
            provided ''soil'' = Some a \<and> provided ''temp'' = Some b \<and> provided ''hum'' = Some c \<longrightarrow>
            prepare w =
              Some (Inr (mdl, Structured [''soil'', ''temp'', ''hum''] [Some a, Some b, Some c], dev, s)))"
proof (intro conjI impI allI)
  assume "provided ''soil'' = Some a \<and> provided ''temp'' = Some b \<and> provided ''hum'' = Some c"
  then show "reconcile features provided s =
      Some (Inr (Structured [''soil'', ''temp'', ''hum''] [Some a, Some b, Some c], s))"
    by (intro reconcile_fallback_supplied assms) simp_all
next
  fix r assume "reconcile features provided s = Some r"
  then show "\<exists>va vb vc s'. r = Inr (Structured [''soil'', ''temp'', ''hum''] [Some va, Some vb, Some vc], s') \<and>
               (provided ''soil'' \<noteq> None \<longrightarrow> provided ''soil'' = Some va) \<and>
               (provided ''temp'' \<noteq> None \<longrightarrow> provided ''temp'' = Some vb) \<and>
               (provided ''hum'' \<noteq> None \<longrightarrow> provided ''hum'' = Some vc) \<and>
               (\<exists>extra. stdout s' = stdout s @ extra \<and>
                  (\<forall>name. EnterPrompt name \<in> set extra \<longleftrightarrow>
                     name \<in> {''soil'', ''temp'', ''hum''} \<and> provided name = None))"
    by (rule reconcile_fallback_general [OF assms])
next
  fix w obj mdl metadata dev
  assume "path_exists w (model (argv w)) \<and> joblib_load w (model (argv w)) = Inr obj \<and>
            load_artifact obj = Inr (mdl, features, metadata) \<and> mdl \<noteq> PyNone \<and>
            obtain_raw_input w \<lparr>stdin = answers w, stdout = [], stderr = [], calls = [], inserted = []\<rparr>
              = Inr (provided, dev, s) \<and>
            provided ''soil'' = Some a \<and> provided ''temp'' = Some b \<and> provided ''hum'' = Some c"
  then show "prepare w =
      Some (Inr (mdl, Structured [''soil'', ''temp'', ''hum''] [Some a, Some b, Some c], dev, s))"
    by (rule prepare_fallback [OF assms])
qed

theorem fallback_row_soil_temp_hum_witness:
  "\<not> truthy PyNone \<and>
   provided_of (Some (47 / 2)) (Some 19) (Some 55) ''soil'' = Some (47 / 2) \<and>
   provided_of (Some (47 / 2)) (Some 19) (Some 55) ''temp'' = Some 19 \<and>
   provided_of (Some (47 / 2)) (Some 19) (Some 55) ''hum'' = Some 55 \<and>
   reconcile PyNone (provided_of (Some (47 / 2)) (Some 19) (Some 55))
       \<lparr>stdin = [], stdout = [], stderr = [], calls = [], inserted = []\<rparr> =
     Some (Inr (Structured [''soil'', ''temp'', ''hum''] [Some (47 / 2), Some 19, Some 55],
                \<lparr>stdin = [], stdout = [], stderr = [], calls = [], inserted = []\<rparr>)) \<and>
   prepare (example_world (PyEstimator (\<lambda>x. Inr [1])) (\<lambda>d. Inr ''id'')) =
     Some (Inr (PyEstimator (\<lambda>x. Inr [1]),
                Structured [''soil'', ''temp'', ''hum''] [Some (47 / 2), Some 19, Some 55], None,
                \<lparr>stdin = [], stdout = [], stderr = [], calls = [], inserted = []\<rparr>))"
proof -
  let ?w = "example_world (PyEstimator (\<lambda>x. Inr [1])) (\<lambda>d. Inr ''id'')"
  let ?p = "provided_of (Some (47 / 2)) (Some 19) (Some 55)"
  let ?s = "\<lparr>stdin = [], stdout = [], stderr = [], calls = [], inserted = []\<rparr>"
  have nt: "\<not> truthy PyNone" by simp
  note inst = fallback_row_soil_temp_hum
    [OF nt, where provided = "?p" and a = "47 / 2" and b = 19 and c = 55 and s = "?s"]
  have p: "?p ''soil'' = Some (47 / 2) \<and> ?p ''temp'' = Some 19 \<and> ?p ''hum'' = Some 55"
    by (intro conjI example_provided)
  have ne: "PyEstimator (\<lambda>x. Inr [1]) \<noteq> PyNone" by simp
  have h: "path_exists ?w (model (argv ?w)) \<and>
           joblib_load ?w (model (argv ?w)) = Inr (PyEstimator (\<lambda>x. Inr [1])) \<and>
           load_artifact (PyEstimator (\<lambda>x. Inr [1])) = Inr (PyEstimator (\<lambda>x. Inr [1]), PyNone, PyDict []) \<and>
           PyEstimator (\<lambda>x. Inr [1]) \<noteq> PyNone \<and>
           obtain_raw_input ?w \<lparr>stdin = answers ?w, stdout = [], stderr = [], calls = [], inserted = []\<rparr>
             = Inr (?p, None, ?s) \<and>
           ?p ''soil'' = Some (47 / 2) \<and> ?p ''temp'' = Some 19 \<and> ?p ''hum'' = Some 55"
    by (intro conjI example_world_start load_artifact_bare_estimator ne example_provided)
  have c1: "reconcile PyNone ?p ?s =
     Some (Inr (Structured [''soil'', ''temp'', ''hum''] [Some (47 / 2), Some 19, Some 55], ?s))"
    by (rule mp [OF inst [THEN conjunct1] p])
  have c3: "prepare ?w =
     Some (Inr (PyEstimator (\<lambda>x. Inr [1]),
                Structured [''soil'', ''temp'', ''hum''] [Some (47 / 2), Some 19, Some 55], None, ?s))"
    by (rule inst [THEN conjunct2, THEN conjunct2, rule_format, OF h])
  show ?thesis
    by (intro conjI nt example_provided c1 c3)
qed

subsection \<open>The artifact without a model\<close>

lemma find_none: "\<forall>v \<in> set vs. \<not> P v \<Longrightarrow> find P vs = None"
  by (induction vs) auto

lemma load_artifact_not_mapping:
  "(\<forall>d. obj \<noteq> PyDict d) \<Longrightarrow> \<not> has_predict obj \<Longrightarrow>
   load_artifact obj = Inl (RuntimeError ''Model artifact does not contain a sklearn model or expected dict.'')"
  by (cases obj) (simp_all add: load_artifact_def)

lemma load_artifact_mapping_none:
  assumes "\<forall>v \<in> set (map snd d). \<not> has_predict v"
    and "\<not> truthy (dict_get d ''model'')" and "\<not> truthy (dict_get d ''pipeline'')"
  shows "\<exists>features metadata. load_artifact (PyDict d) = Inr (PyNone, features, metadata)"
proof -
  have "py_or (py_or (dict_get d ''model'') (dict_get d ''pipeline'')) PyNone = PyNone"
    using assms(2,3) by (simp add: py_or_def)
  with find_none [OF assms(1)] show ?thesis
    by (simp add: load_artifact_def Let_def)
qed

lemma main_load_error:
  assumes "path_exists w (model (argv w))" and "joblib_load w (model (argv w)) = Inr obj"
    and "load_artifact obj = Inl e"
  shows "main w = Some (1, \<lparr>stdin = answers w, stdout = [], stderr = [Traceback (message e)],
                           calls = [], inserted = []\<rparr>)"
  using assms by (simp add: main_def decide_def prepare_def Let_def eprint_def)

lemma main_no_model:
  assumes "path_exists w (model (argv w))" and "joblib_load w (model (argv w)) = Inr obj"
    and "load_artifact obj = Inr (PyNone, features, metadata)"
  shows "main w = Some (1, \<lparr>stdin = answers w, stdout = [NoModelFound], stderr = [],
                           calls = [], inserted = []\<rparr>)"
  using assms by (simp add: main_def decide_def prepare_def Let_def print_def)

text \<open>
  C7, as the spec states it, fails: for a bundle that is a mapping with no value that
  has \<^verbatim>\<open>predict\<close>, \<^verbatim>\<open>load_artifact\<close> raises nothing. It returns \<^verbatim>\<open>None\<close> as the
  model.
\<close>

theorem load_artifact_mapping_counterexample:
  "\<not> has_predict (PyStr ''x'') \<and>
   load_artifact (PyDict [(''note'', PyStr ''x'')]) = Inr (PyNone, PyNone, PyDict [])"
  by (simp add: load_artifact_def dict_get_def py_or_def)

text \<open>
  C7, amended. \<^verbatim>\<open>load_artifact\<close> raises when the bundle is not a mapping and has no
  \<^verbatim>\<open>predict\<close>; the exception is not caught, and the run ends with status 1. When the
  bundle is a mapping none of whose values has \<^verbatim>\<open>predict\<close>, and its \<^verbatim>\<open>model\<close> and
  \<^verbatim>\<open>pipeline\<close> fields are absent or false, \<^verbatim>\<open>load_artifact\<close> returns \<^verbatim>\<open>None\<close> as the
  model without raising; \<^verbatim>\<open>main\<close> then prints that no model was found and ends the
  run with status 1.
\<close>

theorem load_artifact_without_predict:
  "((\<forall>d. obj \<noteq> PyDict d) \<and> \<not> has_predict obj \<longrightarrow>
      load_artifact obj =
        Inl (RuntimeError ''Model artifact does not contain a sklearn model or expected dict.'') \<and>
      (path_exists w (model (argv w)) \<and> joblib_load w (model (argv w)) = Inr obj \<longrightarrow>
         main w = Some (1, \<lparr>stdin = answers w, stdout = [],
                            stderr = [Traceback ''Model artifact does not contain a sklearn model or expected dict.''],
                            calls = [], inserted = []\<rparr>))) \<and>
   ((\<forall>v \<in> set (map snd d). \<not> has_predict v) \<and>
    \<not> truthy (dict_get d ''model'') \<and> \<not> truthy (dict_get d ''pipeline'') \<longrightarrow>
      (\<exists>features metadata. load_artifact (PyDict d) = Inr (PyNone, features, metadata)) \<and>
      (path_exists w' (model (argv w')) \<and> joblib_load w' (model (argv w')) = Inr (PyDict d) \<longrightarrow>
         main w' = Some (1, \<lparr>stdin = answers w', stdout = [NoModelFound], stderr = [],
                             calls = [], inserted = []\<rparr>)))"
proof (intro conjI impI)
  assume h: "(\<forall>d. obj \<noteq> PyDict d) \<and> \<not> has_predict obj"
  then show la: "load_artifact obj =
        Inl (RuntimeError ''Model artifact does not contain a sklearn model or expected dict.'')"
    by (intro load_artifact_not_mapping) simp_all
  assume "path_exists w (model (argv w)) \<and> joblib_load w (model (argv w)) = Inr obj"
  then have "path_exists w (model (argv w))" "joblib_load w (model (argv w)) = Inr obj"
    by simp_all
  from main_load_error [OF this la]
  show "main w = Some (1, \<lparr>stdin = answers w, stdout = [],
                            stderr = [Traceback ''Model artifact does not contain a sklearn model or expected dict.''],
                            calls = [], inserted = []\<rparr>)"
    by simp
next
  assume h: "(\<forall>v \<in> set (map snd d). \<not> has_predict v) \<and>
    \<not> truthy (dict_get d ''model'') \<and> \<not> truthy (dict_get d ''pipeline'')"
  then show ex: "\<exists>features metadata. load_artifact (PyDict d) = Inr (PyNone, features, metadata)"
    by (intro load_artifact_mapping_none) simp_all
  assume "path_exists w' (model (argv w')) \<and> joblib_load w' (model (argv w')) = Inr (PyDict d)"
  then have p: "path_exists w' (model (argv w'))" "joblib_load w' (model (argv w')) = Inr (PyDict d)"
    by simp_all
  from ex obtain features metadata where
    "load_artifact (PyDict d) = Inr (PyNone, features, metadata)" by blast
  from main_no_model [OF p this]
  show "main w' = Some (1, \<lparr>stdin = answers w', stdout = [NoModelFound], stderr = [],
                             calls = [], inserted = []\<rparr>)" .
qed

theorem load_artifact_without_predict_witness:
  "(\<forall>d. PyNum 3 \<noteq> PyDict d) \<and> \<not> has_predict (PyNum 3) \<and>
   load_artifact (PyNum 3) =
     Inl (RuntimeError ''Model artifact does not contain a sklearn model or expected dict.'') \<and>
   main (example_world (PyNum 3) (\<lambda>d. Inr ''id'')) =
     Some (1, \<lparr>stdin = [], stdout = [],
                stderr = [Traceback ''Model artifact does not contain a sklearn model or expected dict.''],
                calls = [], inserted = []\<rparr>) \<and>
   \<not> has_predict (PyStr ''x'') \<and>
   \<not> truthy (dict_get [(''note'', PyStr ''x'')] ''model'') \<and>
   \<not> truthy (dict_get [(''note'', PyStr ''x'')] ''pipeline'') \<and>
   main (example_world (PyDict [(''note'', PyStr ''x'')]) (\<lambda>d. Inr ''id'')) =
     Some (1, \<lparr>stdin = [], stdout = [NoModelFound], stderr = [], calls = [], inserted = []\<rparr>)"
proof -
  let ?w = "example_world (PyNum 3) (\<lambda>d. Inr ''id'')"
  let ?d = "[(''note'', PyStr ''x'')]"
  let ?w' = "example_world (PyDict ?d) (\<lambda>d. Inr ''id'')"
  note inst = load_artifact_without_predict [of "PyNum 3" ?w ?d ?w']
  have h1: "(\<forall>d. PyNum 3 \<noteq> PyDict d) \<and> \<not> has_predict (PyNum 3)" by simp
  have h2: "path_exists ?w (model (argv ?w)) \<and> joblib_load ?w (model (argv ?w)) = Inr (PyNum 3)"
    by (intro conjI example_world_start)
  have h3: "(\<forall>v \<in> set (map snd ?d). \<not> has_predict v) \<and>
            \<not> truthy (dict_get ?d ''model'') \<and> \<not> truthy (dict_get ?d ''pipeline'')"
    by (simp add: dict_get_def)
  have h4: "path_exists ?w' (model (argv ?w')) \<and> joblib_load ?w' (model (argv ?w')) = Inr (PyDict ?d)"
    by (intro conjI example_world_start)
  have a0: "answers ?w = []" "answers ?w' = []" by (simp_all add: example_world_def)
  note c1 = mp [OF inst [THEN conjunct1] h1]
  note c2 = mp [OF inst [THEN conjunct2] h3]
  have m1: "main ?w = Some (1, \<lparr>stdin = [], stdout = [],
                stderr = [Traceback ''Model artifact does not contain a sklearn model or expected dict.''],
                calls = [], inserted = []\<rparr>)"
    using mp [OF c1 [THEN conjunct2] h2] a0(1) by simp
  have m2: "main ?w' = Some (1, \<lparr>stdin = [], stdout = [NoModelFound], stderr = [], calls = [], inserted = []\<rparr>)"
    using mp [OF c2 [THEN conjunct2] h4] a0(2) by simp
  have np: "\<not> has_predict (PyStr ''x'')" by simp
  show ?thesis
    by (intro conjI h1 [THEN conjunct1] h1 [THEN conjunct2] c1 [THEN conjunct1] m1
          np h3 [THEN conjunct2, THEN conjunct1] h3 [THEN conjunct2, THEN conjunct2] m2)
qed

subsection \<open>PREDICT\<close>

lemma predict_step_estimator:
  "predict_step (PyEstimator f) X s =
     (case f X of
        Inr yhat \<Rightarrow> Inr (yhat, s\<lparr>calls := calls s @ [X]\<rparr>)
      | Inl e \<Rightarrow>
          (case f (values_of X) of
             Inr yhat \<Rightarrow> Inr (yhat, s\<lparr>calls := calls s @ [X, values_of X]\<rparr>)
           | Inl e2 \<Rightarrow> Inl (1, print (PredictFailed e e2) (s\<lparr>calls := calls s @ [X, values_of X]\<rparr>))))"
  by (simp add: predict_step_def call_predict_def split: sum.splits)

lemma reconcile_structured:
  "reconcile features provided s = Some (Inr (X, s')) \<Longrightarrow> \<exists>names vs. X = Structured names vs"
  by (auto simp: reconcile_def simp del: fill_missing.simps split: if_splits sum.splits option.splits)

lemma prepare_structured:
  assumes "prepare w = Some (Inr (m, X, dev, s))"
  shows "\<exists>names vs. X = Structured names vs"
proof -
  from assms obtain features provided s1 where "reconcile features provided s1 = Some (Inr (X, s))"
    by (auto simp: prepare_def Let_def split: if_splits sum.splits option.splits pyobj.splits)
  then show ?thesis by (rule reconcile_structured)
qed

lemma main_predict_fatal:
  "prepare w = Some (Inr (m, X, dev, s)) \<Longrightarrow> predict_step m X s = Inl r \<Longrightarrow> main w = Some r"
  by (simp add: main_def decide_def)

lemma example_prepare:
  "prepare (example_world (PyEstimator f) store) =
     Some (Inr (PyEstimator f, Structured [''soil'', ''temp'', ''hum''] [Some (47 / 2), Some 19, Some 55],
                None, \<lparr>stdin = [], stdout = [], stderr = [], calls = [], inserted = []\<rparr>))"
proof -
  have nt: "\<not> truthy PyNone" by simp
  have ne: "PyEstimator f \<noteq> PyNone" by simp
  let ?w = "example_world (PyEstimator f) store"
  let ?p = "provided_of (Some (47 / 2)) (Some 19) (Some 55)"
  have h: "path_exists ?w (model (argv ?w)) \<and>
           joblib_load ?w (model (argv ?w)) = Inr (PyEstimator f) \<and>
           load_artifact (PyEstimator f) = Inr (PyEstimator f, PyNone, PyDict []) \<and>
           PyEstimator f \<noteq> PyNone \<and>
           obtain_raw_input ?w \<lparr>stdin = answers ?w, stdout = [], stderr = [], calls = [], inserted = []\<rparr>
             = Inr (?p, None, \<lparr>stdin = [], stdout = [], stderr = [], calls = [], inserted = []\<rparr>) \<and>
           ?p ''soil'' = Some (47 / 2) \<and> ?p ''temp'' = Some 19 \<and> ?p ''hum'' = Some 55"
    by (intro conjI example_world_start load_artifact_bare_estimator ne example_provided)
  show ?thesis
    by (rule prepare_fallback [OF nt h])
qed

text \<open>
  C9. PREDICT calls the model with the row in its structured form first. If that call
  returns, nothing else is called. If it raises, the model is called once more, with
  the values of the same row as a flat array. If that raises too, the run prints one
  message holding both error texts and ends with status 1.
\<close>

theorem predict_retry_once:
  assumes "prepare w = Some (Inr (PyEstimator f, X, dev, s))"
  shows "(\<exists>names vs. X = Structured names vs \<and> values_of X = Flat vs) \<and>
         (\<forall>yhat. f X = Inr yhat \<longrightarrow>
            predict_step (PyEstimator f) X s = Inr (yhat, s\<lparr>calls := calls s @ [X]\<rparr>)) \<and>
         (\<forall>e yhat. f X = Inl e \<and> f (values_of X) = Inr yhat \<longrightarrow>
            predict_step (PyEstimator f) X s = Inr (yhat, s\<lparr>calls := calls s @ [X, values_of X]\<rparr>)) \<and>
         (\<forall>e e2. f X = Inl e \<and> f (values_of X) = Inl e2 \<longrightarrow>
            predict_step (PyEstimator f) X s =
              Inl (1, print (PredictFailed e e2) (s\<lparr>calls := calls s @ [X, values_of X]\<rparr>)) \<and>
            main w = Some (1, print (PredictFailed e e2) (s\<lparr>calls := calls s @ [X, values_of X]\<rparr>)))"
proof (intro conjI allI impI)
  from prepare_structured [OF assms] obtain names vs where "X = Structured names vs" by blast
  then show "\<exists>names vs. X = Structured names vs \<and> values_of X = Flat vs" by simp
next
  fix yhat assume "f X = Inr yhat"
  then show "predict_step (PyEstimator f) X s = Inr (yhat, s\<lparr>calls := calls s @ [X]\<rparr>)"
    by (simp add: predict_step_estimator)
next
  fix e yhat assume "f X = Inl e \<and> f (values_of X) = Inr yhat"
  then show "predict_step (PyEstimator f) X s = Inr (yhat, s\<lparr>calls := calls s @ [X, values_of X]\<rparr>)"
    by (simp add: predict_step_estimator)
next
  fix e e2 assume h: "f X = Inl e \<and> f (values_of X) = Inl e2"
  then show ps: "predict_step (PyEstimator f) X s =
              Inl (1, print (PredictFailed e e2) (s\<lparr>calls := calls s @ [X, values_of X]\<rparr>))"
    by (simp add: predict_step_estimator)
  show "main w = Some (1, print (PredictFailed e e2) (s\<lparr>calls := calls s @ [X, values_of X]\<rparr>))"
    by (rule main_predict_fatal [OF assms ps])
qed

theorem predict_retry_once_witness:
  "prepare (example_world (PyEstimator (\<lambda>x. Inr [1])) (\<lambda>d. Inr ''id'')) =
     Some (Inr (PyEstimator (\<lambda>x. Inr [1]),
                Structured [''soil'', ''temp'', ''hum''] [Some (47 / 2), Some 19, Some 55], None,
                \<lparr>stdin = [], stdout = [], stderr = [], calls = [], inserted = []\<rparr>)) \<and>
   predict_step (PyEstimator (\<lambda>x. Inr [1]))
       (Structured [''soil'', ''temp'', ''hum''] [Some (47 / 2), Some 19, Some 55])
       \<lparr>stdin = [], stdout = [], stderr = [], calls = [], inserted = []\<rparr> =
     Inr ([1], \<lparr>stdin = [], stdout = [], stderr = [],
                calls = [Structured [''soil'', ''temp'', ''hum''] [Some (47 / 2), Some 19, Some 55]],
                inserted = []\<rparr>) \<and>
   predict_step (PyEstimator (\<lambda>x. case x of Structured n v \<Rightarrow> Inl ''names'' | Flat v \<Rightarrow> Inr [0]))
       (Structured [''soil'', ''temp'', ''hum''] [Some (47 / 2), Some 19, Some 55])
       \<lparr>stdin = [], stdout = [], stderr = [], calls = [], inserted = []\<rparr> =
     Inr ([0], \<lparr>stdin = [], stdout = [], stderr = [],
                calls = [Structured [''soil'', ''temp'', ''hum''] [Some (47 / 2), Some 19, Some 55],
                         Flat [Some (47 / 2), Some 19, Some 55]],
                inserted = []\<rparr>) \<and>
   main (example_world (PyEstimator (\<lambda>x. case x of Structured n v \<Rightarrow> Inl ''names'' | Flat v \<Rightarrow> Inl ''shape''))
          (\<lambda>d. Inr ''id'')) =
     Some (1, \<lparr>stdin = [], stdout = [PredictFailed ''names'' ''shape''], stderr = [],
                calls = [Structured [''soil'', ''temp'', ''hum''] [Some (47 / 2), Some 19, Some 55],
                         Flat [Some (47 / 2), Some 19, Some 55]],
                inserted = []\<rparr>)"
proof -
  let ?X = "Structured [''soil'', ''temp'', ''hum''] [Some (47 / 2), Some 19, Some 55]"
  let ?s = "\<lparr>stdin = [], stdout = [], stderr = [], calls = [], inserted = []\<rparr>"
  let ?f1 = "\<lambda>x::predict_arg. Inr [1] :: string + num list"
  let ?f2 = "\<lambda>x. case x of Structured n v \<Rightarrow> Inl ''names'' | Flat v \<Rightarrow> (Inr [0] :: string + num list)"
  let ?f3 = "\<lambda>x. case x of Structured n v \<Rightarrow> Inl ''names'' | Flat v \<Rightarrow> (Inl ''shape'' :: string + num list)"
  let ?store = "\<lambda>d::prediction_doc. Inr ''id'' :: string + string"
  have p1: "prepare (example_world (PyEstimator ?f1) ?store) = Some (Inr (PyEstimator ?f1, ?X, None, ?s))"
    by (rule example_prepare)
  have p2: "prepare (example_world (PyEstimator ?f2) ?store) = Some (Inr (PyEstimator ?f2, ?X, None, ?s))"
    by (rule example_prepare)
  have p3: "prepare (example_world (PyEstimator ?f3) ?store) = Some (Inr (PyEstimator ?f3, ?X, None, ?s))"
    by (rule example_prepare)
  have r1: "?f1 ?X = Inr [1]" by simp
  have r2: "?f2 ?X = Inl ''names'' \<and> ?f2 (values_of ?X) = Inr [0]" by simp
  have r3: "?f3 ?X = Inl ''names'' \<and> ?f3 (values_of ?X) = Inl ''shape''" by simp
  note i1 = predict_retry_once [OF p1, THEN conjunct2, THEN conjunct1, rule_format, OF r1]
  note i2 = predict_retry_once [OF p2, THEN conjunct2, THEN conjunct2, THEN conjunct1, rule_format, OF r2]
  note i3 = predict_retry_once [OF p3, THEN conjunct2, THEN conjunct2, THEN conjunct2, rule_format, OF r3]
  have c1: "predict_step (PyEstimator ?f1) ?X ?s =
     Inr ([1], \<lparr>stdin = [], stdout = [], stderr = [], calls = [?X], inserted = []\<rparr>)"
    using i1 by simp
  have c2: "predict_step (PyEstimator ?f2) ?X ?s =
     Inr ([0], \<lparr>stdin = [], stdout = [], stderr = [],
                calls = [?X, Flat [Some (47 / 2), Some 19, Some 55]], inserted = []\<rparr>)"
    using i2 by simp
  have c3: "main (example_world (PyEstimator ?f3) ?store) =
     Some (1, \<lparr>stdin = [], stdout = [PredictFailed ''names'' ''shape''], stderr = [],
                calls = [?X, Flat [Some (47 / 2), Some 19, Some 55]], inserted = []\<rparr>)"
    using i3 [THEN conjunct2] by (simp add: print_def)
  show ?thesis
    by (intro conjI p1 c1 c2 c3)
qed

subsection \<open>PERSIST\<close>

lemma persist_failure:
  assumes "\<forall>doc. insert_one w (mongo_uri (argv w)) doc = Inl e"
  shows "persist w dev out s =
           (0, eprint (SaveWarning (''Failed to save prediction to MongoDB: '' @ e)) (print SavingPrediction s))"
  using assms by (simp add: persist_def save_prediction_to_db_def Let_def)

lemma report_line:
  "report raw_flag yhat s = Inr (out, s') \<Longrightarrow>
   s' = print (if raw_flag then RawOut out else if out = 1 then PumpOn else PumpOff) s"
  by (auto simp: report_def Let_def split: list.splits)

lemma decide_decision_line:
  assumes "decide w = Some (Inr (out, dev, s))"
  shows "stdout s \<noteq> [] \<and>
         last (stdout s) = (if raw (argv w) then RawOut out else if out = 1 then PumpOn else PumpOff)"
proof -
  from assms obtain yhat s3 where "report (raw (argv w)) yhat s3 = Inr (out, s)"
    by (auto simp: decide_def split: sum.splits option.splits)
  from report_line [OF this] show ?thesis by (simp add: print_def)
qed

lemma fetch_insert_one:
  "fetch_latest_sensor_data (w\<lparr>insert_one := g\<rparr>) uri dev = fetch_latest_sensor_data w uri dev"
  by (simp add: fetch_latest_sensor_data_def)

lemma obtain_raw_input_insert_one:
  "obtain_raw_input (w\<lparr>insert_one := g\<rparr>) s = obtain_raw_input w s"
  by (simp add: obtain_raw_input_def fetch_insert_one Let_def)

lemma prepare_insert_one:
  "prepare (w\<lparr>insert_one := g\<rparr>) = prepare w"
  by (simp add: prepare_def obtain_raw_input_insert_one Let_def
        cong: sum.case_cong prod.case_cong pyobj.case_cong option.case_cong)

lemma decide_insert_one:
  "decide (w\<lparr>insert_one := g\<rparr>) = decide w"
  by (simp add: decide_def prepare_insert_one
        cong: sum.case_cong prod.case_cong option.case_cong)

lemma example_decide:
  "decide (example_world (PyEstimator (\<lambda>x. Inr [1])) store) =
     Some (Inr (1, None,
       \<lparr>stdin = [], stdout = [PumpOn], stderr = [],
          calls = [Structured [''soil'', ''temp'', ''hum''] [Some (47 / 2), Some 19, Some 55]],
          inserted = []\<rparr>))"
proof -
  have r: "raw (argv (example_world (PyEstimator (\<lambda>x. Inr [1])) store)) = False"
    by (simp add: example_world_def)
  show ?thesis
    by (simp add: decide_def example_prepare predict_step_estimator report_def py_int_def print_def r)
qed

text \<open>
  C8. In a run that has produced its decision (REPORT is done), a failing write to the
  prediction store changes nothing but a warning on the error stream: the run ends
  with status 0, the decision line is the last thing printed before PERSIST began, and
  everything up to it is the same whatever the store does.
\<close>

theorem persistence_failure_is_warning:
  assumes "decide w = Some (Inr (out, dev, s))"
    and "\<forall>doc. insert_one w (mongo_uri (argv w)) doc = Inl e"
  shows "main w = Some (0, eprint (SaveWarning (''Failed to save prediction to MongoDB: '' @ e))
                            (print SavingPrediction s)) \<and>
         stdout s \<noteq> [] \<and>
         last (stdout s) = (if raw (argv w) then RawOut out else if out = 1 then PumpOn else PumpOff) \<and>
         decide (w\<lparr>insert_one := store\<rparr>) = decide w"
proof (intro conjI)
  show "main w = Some (0, eprint (SaveWarning (''Failed to save prediction to MongoDB: '' @ e))
                            (print SavingPrediction s))"
    using assms(1) persist_failure [OF assms(2)] by (simp add: main_def)
  from decide_decision_line [OF assms(1)]
  show "stdout s \<noteq> []"
    and "last (stdout s) = (if raw (argv w) then RawOut out else if out = 1 then PumpOn else PumpOff)"
    by simp_all
  show "decide (w\<lparr>insert_one := store\<rparr>) = decide w"
    by (rule decide_insert_one)
qed

theorem persistence_failure_is_warning_witness:
  "decide (example_world (PyEstimator (\<lambda>x. Inr [1])) (\<lambda>d. Inl ''down'')) =
     Some (Inr (1, None,
       \<lparr>stdin = [], stdout = [PumpOn], stderr = [],
          calls = [Structured [''soil'', ''temp'', ''hum''] [Some (47 / 2), Some 19, Some 55]],
          inserted = []\<rparr>)) \<and>
   (\<forall>doc. insert_one (example_world (PyEstimator (\<lambda>x. Inr [1])) (\<lambda>d. Inl ''down''))
            (mongo_uri (argv (example_world (PyEstimator (\<lambda>x. Inr [1])) (\<lambda>d. Inl ''down'')))) doc
          = Inl ''down'') \<and>
   main (example_world (PyEstimator (\<lambda>x. Inr [1])) (\<lambda>d. Inl ''down'')) =
     Some (0, \<lparr>stdin = [], stdout = [PumpOn, SavingPrediction],
                stderr = [SaveWarning ''Failed to save prediction to MongoDB: down''],
                calls = [Structured [''soil'', ''temp'', ''hum''] [Some (47 / 2), Some 19, Some 55]],
                inserted = []\<rparr>)"
proof -
  let ?w = "example_world (PyEstimator (\<lambda>x. Inr [1])) (\<lambda>d. Inl ''down'')"
  have d: "decide ?w = Some (Inr (1, None,
       \<lparr>stdin = [], stdout = [PumpOn], stderr = [],
          calls = [Structured [''soil'', ''temp'', ''hum''] [Some (47 / 2), Some 19, Some 55]],
          inserted = []\<rparr>))"
    by (rule example_decide)
  have i: "\<forall>doc. insert_one ?w (mongo_uri (argv ?w)) doc = Inl ''down''"
    by (simp add: example_world_def)
  have m: "main ?w = Some (0, \<lparr>stdin = [], stdout = [PumpOn, SavingPrediction],
                stderr = [SaveWarning ''Failed to save prediction to MongoDB: down''],
                calls = [Structured [''soil'', ''temp'', ''hum''] [Some (47 / 2), Some 19, Some 55]],
                inserted = []\<rparr>)"
    using persistence_failure_is_warning [OF d i, THEN conjunct1] by (simp add: print_def eprint_def)
  show ?thesis by (intro conjI d i m)
qed

section \<open>Properties of the resampling\<close>

subsection \<open>Forward fill\<close>

lemma length_ffill_from [simp]: "length (ffill_from prev gap limit xs) = length xs"
  by (induction prev gap limit xs rule: ffill_from.induct) simp_all

lemma ffill_from_known:
  "i < length xs \<Longrightarrow> xs ! i = Some v \<Longrightarrow> ffill_from prev gap limit xs ! i = Some v"
proof (induction prev gap limit xs arbitrary: i rule: ffill_from.induct)
  case (1 prev gap limit)
  then show ?case by simp
next
  case (2 prev gap limit u xs)
  then show ?case by (cases i) simp_all
next
  case (3 prev gap limit xs)
  then show ?case by (cases i) simp_all
qed

lemma ffill_from_run:
  "j < g \<Longrightarrow> g \<le> length ys \<Longrightarrow> \<forall>k<g. ys ! k = None \<Longrightarrow>
   ffill_from prev g0 limit ys ! j = (if g0 + j < limit then prev else None)"
proof (induction ys arbitrary: j g g0)
  case Nil
  then show ?case by simp
next
  case (Cons y ys)
  from Cons.prems have y: "y = None" by (metis gr_implies_not0 linorder_neqE_nat nth_Cons_0)
  show ?case
  proof (cases j)
    case 0
    with y show ?thesis by simp
  next
    case (Suc j')
    with Cons.prems obtain g' where g: "g = Suc g'" by (cases g) auto
    have "\<forall>k<g'. ys ! k = None"
      using Cons.prems(3) g by auto
    with Cons.IH [of j' g' "Suc g0"] Cons.prems Suc g y
    show ?thesis by simp
  qed
qed

lemma ffill_from_after_known:
  "p < length xs \<Longrightarrow> xs ! p = Some v \<Longrightarrow>
   drop (Suc p) (ffill_from prev gap limit xs) = ffill_from (Some v) 0 limit (drop (Suc p) xs)"
proof (induction prev gap limit xs arbitrary: p rule: ffill_from.induct)
  case (1 prev gap limit)
  then show ?case by simp
next
  case (2 prev gap limit u xs)
  then show ?case by (cases p) simp_all
next
  case (3 prev gap limit xs)
  then show ?case by (cases p) simp_all
qed

lemma ffill_gap:
  assumes "xs ! p = Some v" and "p + g < length xs"
    and "\<forall>k. 1 \<le> k \<and> k \<le> g \<longrightarrow> xs ! (p + k) = None"
    and "1 \<le> k" and "k \<le> g"
  shows "ffill limit xs ! (p + k) = (if k \<le> limit then Some v else None)"
proof -
  have p: "p < length xs" using assms(2) by simp
  obtain j where j: "k = Suc j" using assms(4) by (cases k) auto
  have "ffill limit xs ! (p + k) = drop (Suc p) (ffill limit xs) ! j"
    using assms(2,5) j by (simp add: ffill_def)
  also have "\<dots> = ffill_from (Some v) 0 limit (drop (Suc p) xs) ! j"
    using ffill_from_after_known [OF p assms(1)] by (simp add: ffill_def)
  also have "\<dots> = (if 0 + j < limit then Some v else None)"
  proof (rule ffill_from_run [where g = g])
    show "j < g" using assms(5) j by simp
    show "g \<le> length (drop (Suc p) xs)" using assms(2) by simp
    show "\<forall>i<g. drop (Suc p) xs ! i = None"
    proof (intro allI impI)
      fix i assume "i < g"
      then have "xs ! (p + Suc i) = None" using assms(3) [rule_format, of "Suc i"] by simp
      then show "drop (Suc p) xs ! i = None" using \<open>i < g\<close> assms(2) by simp
    qed
  qed
  finally show ?thesis using j by auto
qed

lemma bucket_iff:
  assumes "0 < w"
  shows "bucket_of origin w t = b \<longleftrightarrow> origin + b * w \<le> t \<and> t < origin + b * w + w"
proof
  assume "bucket_of origin w t = b"
  then have b: "b = (t - origin) div w" by (simp add: bucket_of_def)
  have "t - origin = w * ((t - origin) div w) + (t - origin) mod w" by simp
  moreover have "0 \<le> (t - origin) mod w" "(t - origin) mod w < w"
    using assms by simp_all
  ultimately show "origin + b * w \<le> t \<and> t < origin + b * w + w"
    unfolding b by (smt (verit) mult.commute)
next
  assume r: "origin + b * w \<le> t \<and> t < origin + b * w + w"
  have "(t - origin) div w = b"
  proof (rule int_div_pos_eq [where r = "t - origin - b * w"])
    show "t - origin = w * b + (t - origin - b * w)" by (simp add: mult.commute)
    show "0 \<le> t - origin - b * w" using r by simp
    show "t - origin - b * w < w" using r by simp
  qed
  then show "bucket_of origin w t = b" by (simp add: bucket_of_def)
qed

subsection \<open>Resampling\<close>

lemma select_cols_three:
  assumes "select_columns [''moisture'', ''temperature'', ''humidity''] df = Inr sel"
  shows "index sel = index df"
    and "\<exists>xm xt xh. columns sel = [(''moisture'', xm), (''temperature'', xt), (''humidity'', xh)] \<and>
           map_of (columns df) ''moisture'' = Some xm \<and>
           map_of (columns df) ''temperature'' = Some xt \<and>
           map_of (columns df) ''humidity'' = Some xh"
  using assms by (auto simp: select_columns_def split: option.splits sum.splits)

lemma map_of_three:
  "c \<in> {''moisture'', ''temperature'', ''humidity''} \<Longrightarrow>
   map_of [(''moisture'', g xm), (''temperature'', g xt), (''humidity'', g xh)] c =
     Some (g (if c = ''moisture'' then xm else if c = ''temperature'' then xt else xh))"
  by auto

lemma in_bucket_between:
  assumes "0 < w"
  shows "in_bucket origin w b idx xs = cells_between (origin + b * w) (origin + b * w + w) idx xs"
proof -
  have "(\<lambda>(t, x :: num option). bucket_of origin w t = b) =
        (\<lambda>(t, x). origin + b * w \<le> t \<and> t < origin + b * w + w)"
    using bucket_iff [OF assms] by (auto simp: fun_eq_iff)
  then show ?thesis by (simp add: in_bucket_def cells_between_def)
qed


lemma resample_unfold:
  assumes "resample_and_aggregate df m = Inr out"
  shows "\<exists>sel. select_columns [''moisture'', ''temperature'', ''humidity''] df = Inr sel \<and> 0 < m \<and>
           out = (resample_mean (m * 60 * 10 ^ 9) sel)
             \<lparr>columns := map (\<lambda>(c, xs). (c, ffill 2 xs)) (columns (resample_mean (m * 60 * 10 ^ 9) sel))\<rparr>"
proof (cases "select_columns [''moisture'', ''temperature'', ''humidity''] df")
  case (Inl e)
  with assms show ?thesis by (simp add: resample_and_aggregate_def)
next
  case (Inr sel)
  with assms have "0 < m"
    by (cases "m \<le> 0") (simp_all add: resample_and_aggregate_def)
  with assms Inr show ?thesis
    by (simp add: resample_and_aggregate_def Let_def)
qed

lemma get_col_of_three:
  assumes "columns f = [(''moisture'', ym), (''temperature'', yt), (''humidity'', yh)]"
  shows "get_col f ''moisture'' = Inr ym" "get_col f ''temperature'' = Inr yt" "get_col f ''humidity'' = Inr yh"
  using assms by (simp_all add: get_col_def)

lemma get_col_source: "get_col f c = Inr xs \<Longrightarrow> map_of (columns f) c = Some xs"
  by (simp add: get_col_def split: option.splits)

lemma resample_structure:
  assumes ok: "resample_and_aggregate df m = Inr out"
    and c: "c \<in> {''moisture'', ''temperature'', ''humidity''}"
    and col: "get_col df c = Inr xs"
  shows "0 < m \<and>
         (\<exists>origin b0 n.
            index out = map (\<lambda>j. origin + (b0 + int j) * (m * 60 * 10 ^ 9)) [0..<n] \<and>
            get_col out c =
              Inr (ffill 2 (map (\<lambda>j. mean (present (in_bucket origin (m * 60 * 10 ^ 9) (b0 + int j) (index df) xs)))
                              [0..<n])))"
proof -
  let ?w = "m * 60 * 10 ^ 9"
  from resample_unfold [OF ok] obtain sel where
    sel: "select_columns [''moisture'', ''temperature'', ''humidity''] df = Inr sel" and
    m: "0 < m" and
    out: "out = (resample_mean ?w sel)
      \<lparr>columns := map (\<lambda>(c, xs). (c, ffill 2 xs)) (columns (resample_mean ?w sel))\<rparr>"
    by blast
  from select_cols_three [OF sel] obtain xm xt xh where
    idx: "index sel = index df" and
    cols: "columns sel = [(''moisture'', xm), (''temperature'', xt), (''humidity'', xh)]" and
    src: "map_of (columns df) ''moisture'' = Some xm"
         "map_of (columns df) ''temperature'' = Some xt"
         "map_of (columns df) ''humidity'' = Some xh"
    by blast
  note xs_src = get_col_source [OF col]
  define origin where "origin = (if index df = [] then 0
     else Min (set (index df)) - Min (set (index df)) mod day_ns)"
  define b0 where "b0 = bucket_of origin ?w (Min (set (index df)))"
  define n where "n = (if index df = [] then 0
     else Suc (nat (bucket_of origin ?w (Max (set (index df))) - b0)))"
  define cell where "cell = (\<lambda>zs. map (\<lambda>j. mean (present (in_bucket origin ?w (b0 + int j) (index df) zs))) [0..<n])"
  have rm: "resample_mean ?w sel =
        \<lparr>index = map (\<lambda>j. origin + (b0 + int j) * ?w) [0..<n],
         columns = map (\<lambda>(c, zs). (c, cell zs)) (columns sel)\<rparr>"
  proof (cases "index df = []")
    case True
    then show ?thesis unfolding cell_def using idx by (simp add: resample_mean_def n_def)
  next
    case False
    then show ?thesis unfolding cell_def using idx
      by (simp add: resample_mean_def Let_def origin_def b0_def n_def)
  qed
  have i: "index out = map (\<lambda>j. origin + (b0 + int j) * ?w) [0..<n]"
    unfolding out rm by simp
  have co: "columns out =
        [(''moisture'', ffill 2 (cell xm)), (''temperature'', ffill 2 (cell xt)), (''humidity'', ffill 2 (cell xh))]"
    unfolding out rm cols by simp
  from c consider (mo) "c = ''moisture''" | (te) "c = ''temperature''" | (hu) "c = ''humidity''"
    by blast
  then have "get_col out c = Inr (ffill 2 (cell xs))"
  proof cases
    case mo
    with xs_src src(1) have "xs = xm" by simp
    with mo get_col_of_three(1) [OF co] show ?thesis by simp
  next
    case te
    with xs_src src(2) have "xs = xt" by simp
    with te get_col_of_three(2) [OF co] show ?thesis by simp
  next
    case hu
    with xs_src src(3) have "xs = xh" by simp
    with hu get_col_of_three(3) [OF co] show ?thesis by simp
  qed
  then have g: "get_col out c =
        Inr (ffill 2 (map (\<lambda>j. mean (present (in_bucket origin ?w (b0 + int j) (index df) xs))) [0..<n]))"
    by (simp add: cell_def)
  from m i g show ?thesis by blast
qed

lemma count_filled: "length (filter (\<lambda>k. k \<le> (2::nat)) [1..<Suc g]) = min g 2"
proof (induction g)
  case 0
  then show ?case by simp
next
  case (Suc g)
  then show ?case by (cases "g \<ge> 2") auto
qed

lemma mean_Some: "vs \<noteq> [] \<Longrightarrow> mean vs = Some (sum_list vs / of_nat (length vs))"
  by (simp add: mean_def)

lemma cells_between_empty:
  "\<not> (\<exists>t \<in> set idx. lo \<le> t \<and> t < hi) \<Longrightarrow> cells_between lo hi idx xs = []"
  by (auto simp: cells_between_def filter_empty_conv dest: set_zip_leftD)


text \<open>
  C4. In the output of \<^verbatim>\<open>resample_and_aggregate\<close>, for each of the three columns: an
  interval in which the column has observations holds their arithmetic mean; and when
  an interval with a value is followed by \<open>g\<close> intervals without any observation, the
  first \<open>min g 2\<close> of them hold that value, forward-filled, and the others stay missing.
  The interval of row \<open>j\<close> is \<open>[index out ! j, index out ! j + w)\<close> for the width \<open>w\<close> in
  nanoseconds.
\<close>

theorem resample_mean_and_fill_cap:
  assumes ok: "resample_and_aggregate df interval_minutes = Inr out"
    and c: "c \<in> {''moisture'', ''temperature'', ''humidity''}"
    and col: "get_col df c = Inr xs"
  shows "\<exists>ys. get_col out c = Inr ys \<and> length ys = length (index out) \<and>
     (let w = interval_minutes * 60 * 10 ^ 9;
          obs = (\<lambda>j. present (cells_between (index out ! j) (index out ! j + w) (index df) xs))
      in (\<forall>j < length (index out).
            obs j \<noteq> [] \<longrightarrow> ys ! j = Some (sum_list (obs j) / of_nat (length (obs j)))) \<and>
         (\<forall>p g. p + g < length (index out) \<and> obs p \<noteq> [] \<and>
                (\<forall>k. 1 \<le> k \<and> k \<le> g \<longrightarrow>
                   \<not> (\<exists>t \<in> set (index df). index out ! (p + k) \<le> t \<and> t < index out ! (p + k) + w)) \<longrightarrow>
                (\<forall>k. 1 \<le> k \<and> k \<le> g \<longrightarrow> ys ! (p + k) = (if k \<le> 2 then ys ! p else None)) \<and>
                length (filter (\<lambda>k. ys ! (p + k) \<noteq> None) [1..<Suc g]) = min g 2))"
proof -
  define w where "w = interval_minutes * 60 * 10 ^ 9"
  define obs where "obs = (\<lambda>j. present (cells_between (index out ! j) (index out ! j + w) (index df) xs))"
  from resample_structure [OF ok c col] obtain origin b0 n where
    m: "0 < interval_minutes" and
    i: "index out = map (\<lambda>j. origin + (b0 + int j) * w) [0..<n]" and
    g: "get_col out c =
          Inr (ffill 2 (map (\<lambda>j. mean (present (in_bucket origin w (b0 + int j) (index df) xs))) [0..<n]))"
    unfolding w_def by blast
  define pre where "pre = map (\<lambda>j. mean (present (in_bucket origin w (b0 + int j) (index df) xs))) [0..<n]"
  define ys where "ys = ffill 2 pre"
  have w: "0 < w" using m by (simp add: w_def)
  have n: "length (index out) = n" by (simp add: i)
  have len_pre: "length pre = n" by (simp add: pre_def)
  have len: "length ys = n" by (simp add: ys_def ffill_def len_pre)
  have gy: "get_col out c = Inr ys" using g by (simp add: ys_def pre_def)
  have pre: "pre ! j = mean (obs j)" if "j < n" for j
  proof -
    have "index out ! j = origin + (b0 + int j) * w" using that by (simp add: i)
    then show ?thesis
      using that by (simp add: pre_def obs_def in_bucket_between [OF w])
  qed
  have known: "ys ! j = Some (sum_list (obs j) / of_nat (length (obs j)))" if "j < n" "obs j \<noteq> []" for j
  proof -
    have "pre ! j = Some (sum_list (obs j) / of_nat (length (obs j)))"
      using that by (simp add: pre mean_Some)
    then show ?thesis
      unfolding ys_def ffill_def using that(1) len_pre by (intro ffill_from_known) simp_all
  qed
  have gap: "(\<forall>k. 1 \<le> k \<and> k \<le> g \<longrightarrow> ys ! (p + k) = (if k \<le> 2 then ys ! p else None)) \<and>
             length (filter (\<lambda>k. ys ! (p + k) \<noteq> None) [1..<Suc g]) = min g 2"
    if pg: "p + g < n" and op: "obs p \<noteq> []"
      and empty: "\<forall>k. 1 \<le> k \<and> k \<le> g \<longrightarrow>
                   \<not> (\<exists>t \<in> set (index df). index out ! (p + k) \<le> t \<and> t < index out ! (p + k) + w)"
    for p g
  proof -
    define v where "v = sum_list (obs p) / of_nat (length (obs p))"
    have p: "p < n" using pg by simp
    have pp: "pre ! p = Some v" using p op by (simp add: pre mean_Some v_def)
    have yp: "ys ! p = Some v" using known [OF p op] by (simp add: v_def)
    have missing: "\<forall>k. 1 \<le> k \<and> k \<le> g \<longrightarrow> pre ! (p + k) = None"
    proof (intro allI impI)
      fix k assume k: "1 \<le> k \<and> k \<le> g"
      then have "obs (p + k) = []"
        using empty by (simp add: obs_def cells_between_empty)
      moreover have "p + k < n" using k pg by simp
      ultimately show "pre ! (p + k) = None" by (simp add: pre mean_def)
    qed
    have fill: "ys ! (p + k) = (if k \<le> 2 then Some v else None)" if "1 \<le> k" "k \<le> g" for k
      unfolding ys_def using pp _ missing that
      by (rule ffill_gap) (simp add: len_pre pg)
    have a: "\<forall>k. 1 \<le> k \<and> k \<le> g \<longrightarrow> ys ! (p + k) = (if k \<le> 2 then ys ! p else None)"
      using fill yp by simp
    have eq: "filter (\<lambda>k. ys ! (p + k) \<noteq> None) [1..<Suc g] = filter (\<lambda>k. k \<le> 2) [1..<Suc g]"
      by (rule filter_cong) (auto simp: fill split: if_splits)
    have b: "length (filter (\<lambda>k. ys ! (p + k) \<noteq> None) [1..<Suc g]) = min g 2"
      unfolding eq by (rule count_filled)
    from a b show ?thesis by blast
  qed
  have K: "\<forall>j < length (index out).
            obs j \<noteq> [] \<longrightarrow> ys ! j = Some (sum_list (obs j) / of_nat (length (obs j)))"
    using known by (simp add: n)
  have G: "\<forall>p g. p + g < length (index out) \<and> obs p \<noteq> [] \<and>
                (\<forall>k. 1 \<le> k \<and> k \<le> g \<longrightarrow>
                   \<not> (\<exists>t \<in> set (index df). index out ! (p + k) \<le> t \<and> t < index out ! (p + k) + w)) \<longrightarrow>
                (\<forall>k. 1 \<le> k \<and> k \<le> g \<longrightarrow> ys ! (p + k) = (if k \<le> 2 then ys ! p else None)) \<and>
                length (filter (\<lambda>k. ys ! (p + k) \<noteq> None) [1..<Suc g]) = min g 2"
  proof (intro allI impI)
    fix p g
    assume h: "p + g < length (index out) \<and> obs p \<noteq> [] \<and>
                (\<forall>k. 1 \<le> k \<and> k \<le> g \<longrightarrow>
                   \<not> (\<exists>t \<in> set (index df). index out ! (p + k) \<le> t \<and> t < index out ! (p + k) + w))"
    from h have h1: "p + g < n" by (simp add: n)
    from h have h2: "obs p \<noteq> []" by simp
    from h have h3: "\<forall>k. 1 \<le> k \<and> k \<le> g \<longrightarrow>
                   \<not> (\<exists>t \<in> set (index df). index out ! (p + k) \<le> t \<and> t < index out ! (p + k) + w)"
      by (rule conjunct2 [THEN conjunct2])
    from gap [OF h1 h2 h3]
    show "(\<forall>k. 1 \<le> k \<and> k \<le> g \<longrightarrow> ys ! (p + k) = (if k \<le> 2 then ys ! p else None)) \<and>
                length (filter (\<lambda>k. ys ! (p + k) \<noteq> None) [1..<Suc g]) = min g 2" .
  qed
  have L: "length ys = length (index out)" by (simp add: len n)
  from gy L K G show ?thesis
    unfolding Let_def obs_def w_def
    by (intro exI [of _ ys] conjI) assumption+
qed

lemma gappy_resampled:
  "resample_and_aggregate gappy_feed 15 =
     Inr \<lparr>index = [0, 900000000000, 1800000000000, 2700000000000, 3600000000000],
          columns =
            [(''moisture'', [Some (99 / 2), Some (99 / 2), Some (99 / 2), None, Some 40]),
             (''temperature'', [Some (41 / 2), Some (41 / 2), Some (41 / 2), None, Some 22]),
             (''humidity'', [Some (121 / 2), Some (121 / 2), Some (121 / 2), None, Some 62])]\<rparr>"
  by code_simp

theorem resample_mean_and_fill_cap_witness:
  "resample_and_aggregate gappy_feed 15 =
     Inr \<lparr>index = [0, 900000000000, 1800000000000, 2700000000000, 3600000000000],
          columns =
            [(''moisture'', [Some (99 / 2), Some (99 / 2), Some (99 / 2), None, Some 40]),
             (''temperature'', [Some (41 / 2), Some (41 / 2), Some (41 / 2), None, Some 22]),
             (''humidity'', [Some (121 / 2), Some (121 / 2), Some (121 / 2), None, Some 62])]\<rparr> \<and>
   get_col gappy_feed ''moisture'' = Inr [Some 50, Some 49, Some 40] \<and>
   get_col \<lparr>index = [0, 900000000000, 1800000000000, 2700000000000, 3600000000000],
          columns =
            [(''moisture'', [Some (99 / 2), Some (99 / 2), Some (99 / 2), None, Some 40]),
             (''temperature'', [Some (41 / 2), Some (41 / 2), Some (41 / 2), None, Some 22]),
             (''humidity'', [Some (121 / 2), Some (121 / 2), Some (121 / 2), None, Some 62])]\<rparr>
          ''moisture'' = Inr [Some (99 / 2), Some (99 / 2), Some (99 / 2), None, Some 40] \<and>
   [Some (99 / 2), Some (99 / 2), Some (99 / 2), None, Some (40 :: num)] ! 0 = Some ((50 + 49) / 2) \<and>
   [Some (99 / 2), Some (99 / 2), Some (99 / 2), None, Some (40 :: num)] ! 3 = None \<and>
   length (filter (\<lambda>k. [Some (99 / 2), Some (99 / 2), Some (99 / 2), None, Some (40 :: num)] ! (0 + k) \<noteq> None)
             [1..<Suc 3]) = min 3 2"
proof -
  let ?out = "\<lparr>index = [0, 900000000000, 1800000000000, 2700000000000, 3600000000000],
          columns =
            [(''moisture'', [Some (99 / 2), Some (99 / 2), Some (99 / 2), None, Some 40]),
             (''temperature'', [Some (41 / 2), Some (41 / 2), Some (41 / 2), None, Some 22]),
             (''humidity'', [Some (121 / 2), Some (121 / 2), Some (121 / 2), None, Some (62 :: num)])]\<rparr>"
  let ?xs = "[Some 50, Some 49, Some (40 :: num)]"
  let ?w = "15 * 60 * 10 ^ 9 :: int"
  have e1: "resample_and_aggregate gappy_feed 15 = Inr ?out" by (rule gappy_resampled)
  have e2: "get_col gappy_feed ''moisture'' = Inr ?xs" by (simp add: get_col_def gappy_feed_def)
  have c: "''moisture'' \<in> {''moisture'', ''temperature'', ''humidity''}" by simp
  have idx: "index gappy_feed = [0, 300000000000, 4200000000000]"
    by (simp add: gappy_feed_def minute_ns_def)
  from resample_mean_and_fill_cap [OF e1 c e2] obtain ys where
    a: "get_col ?out ''moisture'' = Inr ys \<and> length ys = length (index ?out) \<and>
     (let w = ?w;
          obs = (\<lambda>j. present (cells_between (index ?out ! j) (index ?out ! j + w) (index gappy_feed) ?xs))
      in (\<forall>j < length (index ?out).
            obs j \<noteq> [] \<longrightarrow> ys ! j = Some (sum_list (obs j) / of_nat (length (obs j)))) \<and>
         (\<forall>p g. p + g < length (index ?out) \<and> obs p \<noteq> [] \<and>
                (\<forall>k. 1 \<le> k \<and> k \<le> g \<longrightarrow>
                   \<not> (\<exists>t \<in> set (index gappy_feed). index ?out ! (p + k) \<le> t \<and> t < index ?out ! (p + k) + w)) \<longrightarrow>
                (\<forall>k. 1 \<le> k \<and> k \<le> g \<longrightarrow> ys ! (p + k) = (if k \<le> 2 then ys ! p else None)) \<and>
                length (filter (\<lambda>k. ys ! (p + k) \<noteq> None) [1..<Suc g]) = min g 2))" ..
  note K = a [THEN conjunct2, THEN conjunct2, unfolded Let_def, THEN conjunct1, rule_format]
  note G = a [THEN conjunct2, THEN conjunct2, unfolded Let_def, THEN conjunct2, rule_format]
  have o0: "present (cells_between (index ?out ! 0) (index ?out ! 0 + ?w) (index gappy_feed) ?xs) = [50, 49]"
    by (simp add: idx cells_between_def)
  have y0: "ys ! 0 = Some ((50 + 49) / 2)"
    using K [of 0] by (simp add: idx cells_between_def)
  have empty: "\<forall>k. 1 \<le> k \<and> k \<le> 3 \<longrightarrow>
      \<not> (\<exists>t \<in> set (index gappy_feed). index ?out ! (0 + k) \<le> t \<and> t < index ?out ! (0 + k) + ?w)"
  proof (intro allI impI)
    fix k :: nat assume "1 \<le> k \<and> k \<le> 3"
    then consider "k = 1" | "k = 2" | "k = 3" by linarith
    then show "\<not> (\<exists>t \<in> set (index gappy_feed). index ?out ! (0 + k) \<le> t \<and> t < index ?out ! (0 + k) + ?w)"
      by cases (simp_all add: idx)
  qed
  have h: "0 + 3 < length (index ?out) \<and>
      present (cells_between (index ?out ! 0) (index ?out ! 0 + ?w) (index gappy_feed) ?xs) \<noteq> [] \<and>
      (\<forall>k. 1 \<le> k \<and> k \<le> 3 \<longrightarrow>
      \<not> (\<exists>t \<in> set (index gappy_feed). index ?out ! (0 + k) \<le> t \<and> t < index ?out ! (0 + k) + ?w))"
    using empty o0 by simp
  note g3 = G [of 0 3, OF h]
  have k3: "1 \<le> (3::nat) \<and> (3::nat) \<le> 3" by simp
  have f3: "ys ! (0 + 3) = (if (3::nat) \<le> 2 then ys ! 0 else None)"
    by (rule g3 [THEN conjunct1, rule_format, OF k3])
  have n: "length (filter (\<lambda>k. ys ! (0 + k) \<noteq> None) [1..<Suc 3]) = min 3 2"
    by (rule g3 [THEN conjunct2])
  let ?ys = "[Some (99 / 2), Some (99 / 2), Some (99 / 2), None, Some (40 :: num)]"
  have ge: "get_col ?out ''moisture'' = Inr ?ys" by (simp add: get_col_def)
  with a have ys: "ys = ?ys" by simp
  have c3: "?ys ! 0 = Some ((50 + 49) / 2)" using y0 unfolding ys .
  have c4: "?ys ! 3 = None" using f3 unfolding ys by simp
  have c5: "length (filter (\<lambda>k. ?ys ! (0 + k) \<noteq> None) [1..<Suc 3]) = min 3 2"
    using n unfolding ys .
  show ?thesis by (intro conjI e1 e2 ge c3 c4 c5)
qed

section \<open>Properties of the features\<close>

subsection \<open>Column names and assignment\<close>

lemma digits_nonempty: "digits n \<noteq> []"
  by (subst digits.simps) simp

lemma digit_char_inj: "a < 10 \<Longrightarrow> b < 10 \<Longrightarrow> char_of (48 + a :: nat) = char_of (48 + b) \<Longrightarrow> a = b"
proof -
  assume a: "a < 10" and b: "b < 10" and e: "char_of (48 + a :: nat) = char_of (48 + b)"
  from e have "(of_char (char_of (48 + a)) :: nat) = of_char (char_of (48 + b))" by simp
  then have "(48 + a) mod 256 = (48 + b) mod 256" by simp
  with a b show "a = b" by simp
qed

lemma digits_inj: "digits m = digits n \<Longrightarrow> m = n"
proof (induction m arbitrary: n rule: digits.induct)
  case (1 m)
  show ?case
  proof (cases "m < 10")
    case True
    then have dm: "digits m = [char_of (48 + m)]" by (subst digits.simps) simp
    show ?thesis
    proof (cases "n < 10")
      case True
      then have "digits n = [char_of (48 + n)]" by (subst digits.simps) simp
      with dm "1.prems" have "char_of (48 + m) = char_of (48 + n)" by simp
      with \<open>m < 10\<close> \<open>n < 10\<close> show ?thesis by (rule digit_char_inj)
    next
      case False
      then have "digits n = digits (n div 10) @ [char_of (48 + n mod 10)]"
        by (subst digits.simps) simp
      with dm "1.prems" digits_nonempty [of "n div 10"] show ?thesis by simp
    qed
  next
    case False
    then have dm: "digits m = digits (m div 10) @ [char_of (48 + m mod 10)]"
      by (subst digits.simps) simp
    show ?thesis
    proof (cases "n < 10")
      case True
      then have "digits n = [char_of (48 + n)]" by (subst digits.simps) simp
      with dm "1.prems" digits_nonempty [of "m div 10"] show ?thesis by simp
    next
      case n: False
      then have "digits n = digits (n div 10) @ [char_of (48 + n mod 10)]"
        by (subst digits.simps) simp
      with dm "1.prems" have
        d: "digits (m div 10) = digits (n div 10)" and
        c: "char_of (48 + m mod 10) = char_of (48 + n mod 10)"
        by simp_all
      from "1.IH" [OF False d] have q: "m div 10 = n div 10" .
      have "m mod 10 = n mod 10"
        by (rule digit_char_inj [OF _ _ c]) simp_all
      with q show ?thesis by (metis div_mult_mod_eq)
    qed
  qed
qed

lemma lag_name_inj: "0 \<le> a \<Longrightarrow> 0 \<le> b \<Longrightarrow> lag_name a = lag_name b \<Longrightarrow> a = b"
proof -
  assume a: "0 \<le> a" and b: "0 \<le> b" and e: "lag_name a = lag_name b"
  then have "digits (nat a) = digits (nat b)" by (simp add: lag_name_def str_int_def)
  then have "nat a = nat b" by (rule digits_inj)
  with a b show "a = b" by simp
qed

lemma lag_name_fresh:
  "lag_name k \<noteq> ''moisture''" "lag_name k \<noteq> ''temperature''" "lag_name k \<noteq> ''humidity''"
  "lag_name k \<noteq> ''moisture_diff_1''" "lag_name k \<noteq> ''moisture_rolling_mean_3''"
  "lag_name k \<noteq> ''hour''" "lag_name k \<noteq> ''dayofyear''" "lag_name k \<noteq> ''dayofweek''"
  "lag_name k \<noteq> target_name h"
  by (simp_all add: lag_name_def target_name_def)

lemma target_name_fresh:
  "target_name h \<noteq> ''moisture''" "target_name h \<noteq> ''temperature''" "target_name h \<noteq> ''humidity''"
  "target_name h \<noteq> ''moisture_diff_1''" "target_name h \<noteq> ''moisture_rolling_mean_3''"
  "target_name h \<noteq> ''hour''" "target_name h \<noteq> ''dayofyear''" "target_name h \<noteq> ''dayofweek''"
  by (simp_all add: target_name_def)

lemma is_feature_names:
  "is_feature (lag_name k)" "\<not> is_feature (target_name h)" "\<not> is_feature ''moisture''"
  "is_feature ''temperature''" "is_feature ''humidity''" "is_feature ''moisture_diff_1''"
  "is_feature ''moisture_rolling_mean_3''" "is_feature ''hour''" "is_feature ''dayofyear''"
  "is_feature ''dayofweek''"
  by (simp_all add: is_feature_def lag_name_def target_name_def)

lemma map_of_set_col: "map_of (set_col name vs cols) = (map_of cols)(name \<mapsto> vs)"
  by (induction cols) (auto simp: fun_eq_iff)

lemma names_set_col_old: "name \<in> fst ` set cols \<Longrightarrow> map fst (set_col name vs cols) = map fst cols"
  by (induction cols) force+

lemma names_set_col_new: "name \<notin> fst ` set cols \<Longrightarrow> map fst (set_col name vs cols) = map fst cols @ [name]"
  by (induction cols) auto

lemma names_set_col:
  "map fst (set_col name vs cols) =
     (if name \<in> set (map fst cols) then map fst cols else map fst cols @ [name])"
  by (simp add: names_set_col_old names_set_col_new)

lemma get_col_assign:
  "get_col (assign name vs f) c = (if c = name then Inr vs else get_col f c)"
  by (simp add: get_col_def assign_def map_of_set_col)

lemma index_assign [simp]: "index (assign name vs f) = index f"
  by (simp add: assign_def)

lemma names_assign:
  "map fst (columns (assign name vs f)) =
     (if name \<in> set (map fst (columns f)) then map fst (columns f) else map fst (columns f) @ [name])"
  by (simp add: assign_def names_set_col)

subsection \<open>The lag loop and the row filter\<close>

lemma add_lags_keeps:
  "add_lags ls X = Inr X' \<Longrightarrow>
   index X' = index X \<and> get_col X' ''moisture'' = get_col X ''moisture''"
proof (induction ls arbitrary: X)
  case Nil
  then show ?case by simp
next
  case (Cons l ls)
  from Cons.prems obtain m where
    m: "get_col X ''moisture'' = Inr m" and
    r: "add_lags ls (assign (lag_name l) (shift l m) X) = Inr X'"
    by (auto split: sum.splits)
  from Cons.IH [OF r] show ?case
    by (simp add: get_col_assign lag_name_fresh(1) [symmetric])
qed

lemma add_lags_other:
  "add_lags ls X = Inr X' \<Longrightarrow> name \<notin> lag_name ` set ls \<Longrightarrow> get_col X' name = get_col X name"
proof (induction ls arbitrary: X)
  case Nil
  then show ?case by simp
next
  case (Cons l ls)
  from Cons.prems(1) obtain m where
    m: "get_col X ''moisture'' = Inr m" and
    r: "add_lags ls (assign (lag_name l) (shift l m) X) = Inr X'"
    by (auto split: sum.splits)
  from Cons.prems(2) have n: "name \<notin> lag_name ` set ls" "name \<noteq> lag_name l" by auto
  from Cons.IH [OF r n(1)] n(2) show ?case
    by (simp add: get_col_assign)
qed

lemma add_lags_lag:
  "add_lags ls X = Inr X' \<Longrightarrow> get_col X ''moisture'' = Inr m \<Longrightarrow> \<forall>l \<in> set ls. 0 \<le> l \<Longrightarrow>
   l \<in> set ls \<Longrightarrow> get_col X' (lag_name l) = Inr (shift l m)"
proof (induction ls arbitrary: X)
  case Nil
  then show ?case by simp
next
  case (Cons a ls)
  let ?X1 = "assign (lag_name a) (shift a m) X"
  from Cons.prems(1,2) have r: "add_lags ls ?X1 = Inr X'" by simp
  have m1: "get_col ?X1 ''moisture'' = Inr m"
    using Cons.prems(2) by (simp add: get_col_assign lag_name_fresh(1) [symmetric])
  have nn: "\<forall>l \<in> set ls. 0 \<le> l" using Cons.prems(3) by simp
  show ?case
  proof (cases "l \<in> set ls")
    case True
    from Cons.IH [OF r m1 nn True] show ?thesis .
  next
    case False
    with Cons.prems(4) have la: "l = a" by simp
    have "lag_name a \<notin> lag_name ` set ls"
    proof
      assume "lag_name a \<in> lag_name ` set ls"
      then obtain b where b: "b \<in> set ls" "lag_name a = lag_name b" by auto
      with Cons.prems(3) have "a = b" by (intro lag_name_inj) auto
      with b(1) False la show False by simp
    qed
    from add_lags_other [OF r this] la show ?thesis
      by (simp add: get_col_assign)
  qed
qed

lemma add_lags_names:
  "add_lags ls X = Inr X' \<Longrightarrow> distinct ls \<Longrightarrow> \<forall>l \<in> set ls. 0 \<le> l \<Longrightarrow>
   \<forall>l \<in> set ls. lag_name l \<notin> set (map fst (columns X)) \<Longrightarrow>
   map fst (columns X') = map fst (columns X) @ map lag_name ls"
proof (induction ls arbitrary: X)
  case Nil
  then show ?case by simp
next
  case (Cons a ls)
  from Cons.prems(1) obtain m where
    m: "get_col X ''moisture'' = Inr m" and
    r: "add_lags ls (assign (lag_name a) (shift a m) X) = Inr X'"
    by (auto split: sum.splits)
  let ?X1 = "assign (lag_name a) (shift a m) X"
  have n1: "map fst (columns ?X1) = map fst (columns X) @ [lag_name a]"
    using Cons.prems(4) by (simp add: names_assign)
  have fresh: "\<forall>l \<in> set ls. lag_name l \<notin> set (map fst (columns ?X1))"
  proof
    fix l assume l: "l \<in> set ls"
    with Cons.prems(2) have "l \<noteq> a" by auto
    moreover have "0 \<le> l" "0 \<le> a" using l Cons.prems(3) by auto
    ultimately have "lag_name l \<noteq> lag_name a" using lag_name_inj by blast
    moreover have "lag_name l \<notin> set (map fst (columns X))" using l Cons.prems(4) by simp
    ultimately show "lag_name l \<notin> set (map fst (columns ?X1))" unfolding n1 by simp
  qed
  have "map fst (columns X') = map fst (columns ?X1) @ map lag_name ls"
    using Cons.prems(2,3) by (intro Cons.IH [OF r _ _ fresh]) simp_all
  then show ?case unfolding n1 by simp
qed

lemma index_take_rows [simp]: "index (take_rows keep f) = map (\<lambda>i. index f ! i) keep"
  by (simp add: take_rows_def)

lemma names_take_rows [simp]: "map fst (columns (take_rows keep f)) = map fst (columns f)"
  by (simp add: take_rows_def case_prod_unfold)

lemma get_col_take_rows:
  "get_col (take_rows keep f) c =
     (case get_col f c of Inl e \<Rightarrow> Inl e | Inr xs \<Rightarrow> Inr (map (\<lambda>i. xs ! i) keep))"
proof -
  have "map_of (columns (take_rows keep f)) = map_option (\<lambda>xs. map (\<lambda>i. xs ! i) keep) \<circ> map_of (columns f)"
    unfolding take_rows_def by (simp add: map_of_map)
  then show ?thesis by (simp add: get_col_def split: option.splits)
qed

lemma complete_row_col:
  "get_col f c = Inr xs \<Longrightarrow> complete_row f i \<Longrightarrow> xs ! i \<noteq> None"
proof -
  assume g: "get_col f c = Inr xs" and cr: "complete_row f i"
  from g have "(c, xs) \<in> set (columns f)"
    by (auto simp: get_col_def split: option.splits dest: map_of_SomeD)
  with cr show ?thesis by (auto simp: complete_row_def list_all_iff)
qed

lemma shift_nth:
  "i < length xs \<Longrightarrow>
   shift k xs ! i = (if 0 \<le> int i - k \<and> int i - k < int (length xs) then xs ! nat (int i - k) else None)"
  by (simp add: shift_def Let_def)

lemma length_shift [simp]: "length (shift k xs) = length xs"
  by (simp add: shift_def)

subsection \<open>create_lag_features\<close>

lemma upto_nonneg: "\<forall>l \<in> set [1..lags]. 0 \<le> l"
  by simp

lemma create_lag_features_unfold:
  assumes "create_lag_features df lags = Inr out"
  shows "\<exists>m X1 X6. add_lags [1..lags] df = Inr X1 \<and> get_col df ''moisture'' = Inr m \<and>
           out = dropna X6 \<and> index X6 = index df \<and>
           map fst (columns X6) =
             map fst (columns
               (assign ''dayofweek'' [] (assign ''dayofyear'' [] (assign ''hour'' []
                 (assign ''moisture_rolling_mean_3'' [] (assign ''moisture_diff_1'' [] X1)))))) \<and>
           (\<forall>k. 1 \<le> k \<and> k \<le> lags \<longrightarrow> get_col X6 (lag_name k) = Inr (shift k m))"
proof -
  from assms obtain X1 where x1: "add_lags [1..lags] df = Inr X1"
    by (auto simp: create_lag_features_def split: sum.splits)
  from assms x1 obtain m where m1: "get_col X1 ''moisture'' = Inr m"
    by (auto simp: create_lag_features_def split: sum.splits)
  define X2 where "X2 = assign ''moisture_diff_1'' (minus_cells m (shift 1 m)) X1"
  have m2: "get_col X2 ''moisture'' = Inr m"
    using m1 by (simp add: X2_def get_col_assign)
  define X3 where "X3 = assign ''moisture_rolling_mean_3'' (rolling_mean 3 1 m) X2"
  define X4 where "X4 = assign ''hour'' (calendar_cells hour (index X3)) X3"
  define X5 where "X5 = assign ''dayofyear'' (calendar_cells dayofyear (index X4)) X4"
  define X6 where "X6 = assign ''dayofweek'' (calendar_cells dayofweek (index X5)) X5"
  have out: "out = dropna X6"
    using assms x1 m1 m2
    by (simp add: create_lag_features_def Let_def X2_def X3_def X4_def X5_def X6_def)
  from add_lags_keeps [OF x1] m1 have
    i1: "index X1 = index df" and m: "get_col df ''moisture'' = Inr m" by simp_all
  have i6: "index X6 = index df"
    by (simp add: X6_def X5_def X4_def X3_def X2_def i1)
  have names: "map fst (columns X6) =
             map fst (columns
               (assign ''dayofweek'' [] (assign ''dayofyear'' [] (assign ''hour'' []
                 (assign ''moisture_rolling_mean_3'' [] (assign ''moisture_diff_1'' [] X1))))))"
    by (simp add: X6_def X5_def X4_def X3_def X2_def names_assign)
  have lag: "get_col X6 (lag_name k) = Inr (shift k m)" if "1 \<le> k \<and> k \<le> lags" for k
  proof -
    have "get_col X6 (lag_name k) = get_col X1 (lag_name k)"
      by (simp add: X6_def X5_def X4_def X3_def X2_def get_col_assign lag_name_fresh)
    also have "\<dots> = Inr (shift k m)"
      using that by (intro add_lags_lag [OF x1 m upto_nonneg]) simp
    finally show ?thesis .
  qed
  from x1 m out i6 names lag show ?thesis by blast
qed


lemma well_formed_length:
  "well_formed f \<Longrightarrow> get_col f c = Inr xs \<Longrightarrow> length xs = length (index f)"
proof -
  assume wf: "well_formed f" and g: "get_col f c = Inr xs"
  from g have "(c, xs) \<in> set (columns f)"
    by (auto simp: get_col_def split: option.splits dest: map_of_SomeD)
  with wf show ?thesis by (auto simp: well_formed_def list_all_iff)
qed

lemma index_dropna:
  "index (dropna f) = map (\<lambda>i. index f ! i) (filter (complete_row f) [0..<length (index f)])"
  by (simp add: dropna_def)

lemma get_col_dropna:
  "get_col f c = Inr xs \<Longrightarrow>
   get_col (dropna f) c = Inr (map (\<lambda>i. xs ! i) (filter (complete_row f) [0..<length (index f)]))"
  by (simp add: dropna_def get_col_take_rows)

text \<open>
  C3. In the output of \<^verbatim>\<open>create_lag_features\<close>, for every lag \<open>k\<close> from 1 to \<open>lags\<close>:
  each retained row is a row \<open>i\<close> of the input with \<open>k \<le> i\<close>, and its \<^verbatim>\<open>moisture_lag_k\<close>
  cell is the moisture of input row \<open>i - k\<close>; an input row \<open>i\<close> with \<open>i - k\<close> out of
  range is not in the output. Rows are identified by their timestamps, which a
  resampled series has once each.
\<close>

theorem lag_correctness:
  assumes ok: "create_lag_features df lags = Inr X"
    and wf: "well_formed df" and dist: "distinct (index df)"
    and mo: "get_col df ''moisture'' = Inr m"
    and k: "1 \<le> k" "k \<le> lags"
  shows "\<exists>ys. get_col X (lag_name k) = Inr ys \<and> length ys = length (index X) \<and>
           (\<forall>r < length (index X). \<exists>i < length (index df).
               index X ! r = index df ! i \<and> k \<le> int i \<and>
               ys ! r = m ! (i - nat k) \<and> ys ! r \<noteq> None) \<and>
           (\<forall>i < length (index df). int i < k \<longrightarrow> index df ! i \<notin> set (index X))"
proof -
  from create_lag_features_unfold [OF ok] mo obtain X6 where
    out: "X = dropna X6" and i6: "index X6 = index df" and
    lag: "get_col X6 (lag_name k) = Inr (shift k m)"
    using k by auto
  define n where "n = length (index df)"
  define keep where "keep = filter (complete_row X6) [0..<n]"
  define ys where "ys = map (\<lambda>i. shift k m ! i) keep"
  have len_m: "length m = n" using well_formed_length [OF wf mo] by (simp add: n_def)
  have idx: "index X = map (\<lambda>i. index df ! i) keep"
    by (simp add: out index_dropna i6 keep_def n_def)
  have gy: "get_col X (lag_name k) = Inr ys"
    using get_col_dropna [OF lag] by (simp add: out ys_def keep_def i6 n_def)
  have len: "length ys = length (index X)" by (simp add: ys_def idx)
  have kept: "i < n" "k \<le> int i" "shift k m ! i = m ! (i - nat k)" "shift k m ! i \<noteq> None"
    if "i \<in> set keep" for i
  proof -
    from that show i: "i < n" by (simp add: keep_def)
    from that have cr: "complete_row X6 i" by (simp add: keep_def)
    from complete_row_col [OF lag cr] show nn: "shift k m ! i \<noteq> None" .
    with i len_m show ki: "k \<le> int i"
      by (simp add: shift_nth split: if_splits)
    with i len_m k show "shift k m ! i = m ! (i - nat k)"
      by (simp add: shift_nth nat_diff_distrib')
  qed
  have rows: "\<forall>r < length (index X). \<exists>i < length (index df).
               index X ! r = index df ! i \<and> k \<le> int i \<and>
               ys ! r = m ! (i - nat k) \<and> ys ! r \<noteq> None"
  proof (intro allI impI)
    fix r assume r: "r < length (index X)"
    then have rk: "r < length keep" by (simp add: idx)
    then have mem: "keep ! r \<in> set keep" by simp
    have y: "ys ! r = shift k m ! (keep ! r)" using rk by (simp add: ys_def)
    show "\<exists>i < length (index df).
               index X ! r = index df ! i \<and> k \<le> int i \<and>
               ys ! r = m ! (i - nat k) \<and> ys ! r \<noteq> None"
    proof (intro exI conjI)
      show "keep ! r < length (index df)" using kept(1) [OF mem] by (simp add: n_def)
      show "index X ! r = index df ! (keep ! r)" using rk by (simp add: idx)
      show "k \<le> int (keep ! r)" by (rule kept(2) [OF mem])
      show "ys ! r = m ! (keep ! r - nat k)" unfolding y by (rule kept(3) [OF mem])
      show "ys ! r \<noteq> None" unfolding y by (rule kept(4) [OF mem])
    qed
  qed
  have absent: "\<forall>i < length (index df). int i < k \<longrightarrow> index df ! i \<notin> set (index X)"
  proof (intro allI impI notI)
    fix i assume i: "i < length (index df)" and ik: "int i < k"
      and mem: "index df ! i \<in> set (index X)"
    from mem obtain j where j: "j \<in> set keep" "index df ! j = index df ! i"
      by (auto simp: idx)
    from kept(1,2) [OF j(1)] have "j < length (index df)" "k \<le> int j" by (simp_all add: n_def)
    with j(2) i dist have "j = i" by (simp add: nth_eq_iff_index_eq)
    with \<open>k \<le> int j\<close> ik show False by simp
  qed
  from gy len rows absent show ?thesis
    by (intro exI [of _ ys] conjI)
qed

lemma example_lagged_eval: "create_lag_features example_resampled 2 = Inr example_lagged"
  by code_simp

lemma example_resampled_eval: "resample_and_aggregate example_feed 15 = Inr example_resampled"
  by code_simp

lemma example_resampled_shape: "well_formed example_resampled" "distinct (index example_resampled)"
  by code_simp+

theorem lag_correctness_witness:
  "create_lag_features example_resampled 2 = Inr example_lagged \<and>
   well_formed example_resampled \<and> distinct (index example_resampled) \<and>
   get_col example_resampled ''moisture'' =
     Inr [Some (99 / 2), Some 48, Some (93 / 2), Some 45, Some (87 / 2), Some 42, Some (81 / 2), Some 39] \<and>
   get_col example_lagged (lag_name 2) =
     Inr [Some (99 / 2), Some 48, Some (93 / 2), Some 45, Some (87 / 2), Some 42] \<and>
   (\<exists>i < length (index example_resampled).
      index example_lagged ! 0 = index example_resampled ! i \<and> 2 \<le> int i \<and>
      [Some (99 / 2), Some 48, Some (93 / 2), Some 45, Some (87 / 2), Some (42 :: num)] ! 0 =
        [Some (99 / 2), Some 48, Some (93 / 2), Some 45, Some (87 / 2), Some 42, Some (81 / 2), Some 39]
          ! (i - nat 2)) \<and>
   index example_resampled ! 1 \<notin> set (index example_lagged)"
proof -
  let ?m = "[Some (99 / 2), Some 48, Some (93 / 2), Some 45, Some (87 / 2), Some 42, Some (81 / 2), Some (39 :: num)]"
  let ?ys = "[Some (99 / 2), Some 48, Some (93 / 2), Some 45, Some (87 / 2), Some (42 :: num)]"
  have mo: "get_col example_resampled ''moisture'' = Inr ?m"
    by (simp add: get_col_def example_resampled_def)
  have k: "1 \<le> (2 :: int)" "(2 :: int) \<le> 2" by simp_all
  have ge: "get_col example_lagged (lag_name 2) = Inr ?ys" by code_simp
  from lag_correctness [OF example_lagged_eval example_resampled_shape mo k] obtain ys where
    a: "get_col example_lagged (lag_name 2) = Inr ys"
    and rows: "\<forall>r < length (index example_lagged). \<exists>i < length (index example_resampled).
               index example_lagged ! r = index example_resampled ! i \<and> 2 \<le> int i \<and>
               ys ! r = ?m ! (i - nat 2) \<and> ys ! r \<noteq> None"
    and absent: "\<forall>i < length (index example_resampled). int i < 2 \<longrightarrow>
               index example_resampled ! i \<notin> set (index example_lagged)"
    by (elim exE conjE)
  from a ge have ys: "ys = ?ys" by simp
  have r0: "0 < length (index example_lagged)" by (simp add: example_lagged_def)
  from rows [rule_format, OF r0] obtain i where
    i: "i < length (index example_resampled)"
       "index example_lagged ! 0 = index example_resampled ! i" "2 \<le> int i"
       "ys ! 0 = ?m ! (i - nat 2)"
    by (elim exE conjE)
  have c1: "\<exists>i < length (index example_resampled).
      index example_lagged ! 0 = index example_resampled ! i \<and> 2 \<le> int i \<and>
      ?ys ! 0 = ?m ! (i - nat 2)"
    using i unfolding ys by (intro exI [of _ i] conjI)
  have i1: "1 < length (index example_resampled)" "int 1 < 2"
    by (simp_all add: example_resampled_def)
  have c2: "index example_resampled ! 1 \<notin> set (index example_lagged)"
    by (rule absent [rule_format, OF i1])
  show ?thesis
    by (intro conjI example_lagged_eval example_resampled_shape mo ge c1 c2)
qed

subsection \<open>build_dataset\<close>

lemma select_cols_names: "select_cols names cols = Inr r \<Longrightarrow> map fst r = names"
  by (induction names arbitrary: r) (auto split: option.splits sum.splits)

lemma select_columns_shape:
  "select_columns names f = Inr X \<Longrightarrow> index X = index f \<and> map fst (columns X) = names"
  by (auto simp: select_columns_def select_cols_names split: sum.splits)

lemma build_dataset_unfold:
  assumes "build_dataset agg lags H = Inr (X, y)"
  shows "\<exists>F m tvals keep.
           create_lag_features agg lags = Inr F \<and> get_col agg ''moisture'' = Inr m \<and>
           distinct (index agg) \<and>
           tvals = map (\<lambda>l. case map_of (zip (index agg) (shift (- H) m)) l of
                               None \<Rightarrow> None | Some x \<Rightarrow> x) (index F) \<and>
           keep = filter (\<lambda>r. tvals ! r \<noteq> None) [0..<length (index F)] \<and>
           index X = map (\<lambda>r. index F ! r) keep \<and>
           s_index y = index X \<and>
           s_values y = map (\<lambda>r. tvals ! r) keep \<and>
           map fst (columns X) =
             filter is_feature (map fst (columns (assign (target_name H) tvals F)))"
proof -
  from assms obtain F where F: "create_lag_features agg lags = Inr F"
    by (auto simp: build_dataset_def split: sum.splits)
  from assms F obtain m where m: "get_col agg ''moisture'' = Inr m"
    by (auto simp: build_dataset_def split: sum.splits)
  from assms F m obtain target where
    t: "reindex \<lparr>s_index = index agg, s_values = shift (- H) m\<rparr> (index F) = Inr target"
    by (auto simp: build_dataset_def split: sum.splits)
  define tvals where "tvals = map (\<lambda>l. case map_of (zip (index agg) (shift (- H) m)) l of
                               None \<Rightarrow> None | Some x \<Rightarrow> x) (index F)"
  define keep where "keep = filter (\<lambda>r. tvals ! r \<noteq> None) [0..<length (index F)]"
  from t have dist: "distinct (index agg)" and tv: "s_values target = tvals"
    by (auto simp: reindex_def tvals_def split: if_splits)
  define G where "G = assign (target_name H) tvals F"
  have gG: "get_col G (target_name H) = Inr tvals" by (simp add: G_def get_col_assign)
  have iG: "index G = index F" by (simp add: G_def)
  define df' where "df' = take_rows keep G"
  have d: "dropna_subset (target_name H) G = Inr df'"
    by (simp add: dropna_subset_def gG iG df'_def keep_def)
  have gy: "get_col df' (target_name H) = Inr (map (\<lambda>r. tvals ! r) keep)"
    by (simp add: df'_def get_col_take_rows gG)
  from assms F m t tv d gy obtain Xs where
    sel: "select_columns (filter is_feature (map fst (columns df'))) df' = Inr Xs"
    by (auto simp: build_dataset_def G_def [symmetric] Let_def split: sum.splits)
  from assms F m t tv d gy sel have X: "X = Xs" and y: "y = \<lparr>s_index = index df', s_values = map (\<lambda>r. tvals ! r) keep\<rparr>"
    by (auto simp: build_dataset_def G_def [symmetric] Let_def)
  from select_columns_shape [OF sel] X have
    iX: "index X = index df'" and nX: "map fst (columns X) = filter is_feature (map fst (columns df'))"
    by simp_all
  have i': "index df' = map (\<lambda>r. index F ! r) keep" by (simp add: df'_def iG)
  have n': "map fst (columns df') = map fst (columns G)" by (simp add: df'_def)
  show ?thesis
    using F m dist tvals_def keep_def iX i' y nX n' G_def
    by (intro exI [of _ F] exI [of _ m] exI [of _ tvals] exI [of _ keep]) simp
qed

end
